theory Spec2Isabelle
  imports Main "HOL-Library.Word"
begin

section \<open>Data model of package pushsync\<close>

text \<open>
  Byte slices are lists of 8-bit words; a \<open>swarm.Address\<close> is its byte slice and
  \<open>Address.Equal\<close> is equality of the bytes. Prices are \<open>uint64\<close>, tag identifiers
  \<open>uint32\<close>, the price-table index and the proximity order \<open>uint8\<close>. A stream and a
  tag handle are opaque objects handed out by the transport and the tagger; they are
  identified by a number.
\<close>

type_synonym bytes = "8 word list"
type_synonym price = "64 word"
type_synonym stream = nat
type_synonym tag = nat
type_synonym headers = "(string \<times> bytes) list"

text \<open>The source's constants \<open>maxPeers\<close> and \<open>nPeersToPushsync\<close>.\<close>

definition maxPeers :: nat where
  "maxPeers = 5"

definition nPeersToPushsync :: nat where
  "nPeersToPushsync = 3"

text \<open>
  Errors are values. The sentinels are the package-level \<open>errors.New\<close> values the code
  compares against; \<open>ErrOther\<close> is any other error of a collaborator, named by its text.
  \<open>Wrapf\<close> is \<open>fmt.Errorf\<close> with the verb \<open>%w\<close> (the chain \<open>errors.Is\<close> follows),
  \<open>Fmtv\<close> is \<open>fmt.Errorf\<close> with \<open>%v\<close> (the text of the error only, no chain) and
  \<open>Fmt\<close> is \<open>fmt.Errorf\<close> without an error argument. The format string and its
  other arguments are kept as a \<open>msg\<close>.
\<close>

datatype msg =
    MsgClosestPeer
  | MsgNewStream bytes
  | MsgReserve bytes
  | MsgDeliver bytes bytes
  | MsgTagIncrement "32 word"
  | MsgReceiveReceipt bytes bytes
  | MsgInvalidReceipt bytes bytes
  | MsgReadDelivery
  | MsgChunkStore
  | MsgReceiptSignature
  | MsgSendReceipt bytes
  | MsgHandlerPush

datatype error =
    ErrWantSelf
  | ErrNotFound
  | ErrOutOfDepthReplication
  | ErrInvalidChunk
  | ErrContextCanceled
  | ErrDeadlineExceeded
  | ErrOther string
  | Wrapf msg error
  | Fmtv msg error
  | Fmt msg

fun errors_Is :: "error \<Rightarrow> error \<Rightarrow> bool" where
  "errors_Is (Wrapf m e) t = (Wrapf m e = t \<or> errors_Is e t)"
| "errors_Is e t = (e = t)"

record Chunk =
  addr :: bytes
  sdata :: bytes
  tagID :: "32 word"

record pb_Delivery =
  Address :: bytes
  Data :: bytes

record pb_Receipt =
  Address :: bytes
  Signature :: bytes

record Receipt =
  Address :: bytes
  Signature :: bytes

record p2p_Peer =
  Address :: bytes

text \<open>\<open>swarm.NewChunk\<close>: a chunk with the given address and data and tag 0.\<close>

definition NewChunk :: "bytes \<Rightarrow> bytes \<Rightarrow> Chunk" where
  "NewChunk a d = \<lparr>addr = a, sdata = d, tagID = 0\<rparr>"

section \<open>Collaborators, state and observable events\<close>

text \<open>
  Every call the code makes on a collaborator is recorded, in order, with its arguments
  and its result. \<open>EvLastErr\<close> records an assignment to the local \<open>lastErr\<close> of
  \<open>pushToClosest\<close>. The \<open>EvGo...\<close> events record the launch of a goroutine.
\<close>

datatype event =
    EvCheapestPeer "bytes list" "error + bytes"
  | EvNewStream bytes "error + stream"
  | EvNotifyPeerPrice bytes price "8 word" "error option"
  | EvReserve bytes price "error option"
  | EvRelease bytes price
  | EvCredit bytes price "error option"
  | EvDebit bytes price "error option"
  | EvWriteDelivery bytes stream pb_Delivery "error option"
  | EvReadReceipt bytes stream "error + pb_Receipt"
  | EvReset stream
  | EvGoFullClose stream
  | EvCanceld
  | EvTotalSentInc
  | EvTagInc tag "error option"
  | EvTotalErrorsInc
  | EvLoggerErrorf error
  | EvLoggerTracefReached
  | EvLastErr error
  | EvReadDelivery "error + pb_Delivery"
  | EvTotalReceivedInc
  | EvGoUnwrap Chunk
  | EvPut Chunk "error option"
  | EvGoReplicate bytes
  | EvSign bytes "error + bytes"
  | EvWriteReceipt pb_Receipt "error option"
  | EvStreamReset
  | EvStreamFullClose

text \<open>
  The struct \<open>PushSync\<close> holds the node's address and its collaborators. The
  collaborators are interfaces whose implementations are not part of the package, so each
  method is a field: a function of the state \<open>'w\<close> of everything outside the package
  (ledger, price table, topology, transport, clock) that returns the method's result and
  the next outside state. The helpers of \<open>headerutils\<close>, \<open>swarm.DistanceCmp\<close>,
  \<open>cac.Valid\<close> and \<open>soc.Valid\<close> are functions of their arguments alone.
  \<open>ctx_Done\<close> is \<open>Some (ctx.Err())\<close> when the context's channel is closed. The
  stream of the handler (the upstream stream) is the one the fields \<open>up_...\<close> act on.
  \<open>unwrap\<close> says whether the field \<open>unwrap\<close> is set (not nil), and
  \<open>topology_Neighbors\<close> is the sequence of neighbours, each with its proximity order,
  that \<open>EachNeighbor\<close> enumerates.
\<close>

record 'w PushSync =
  address :: bytes
  unwrap :: bool
  ctx_Done :: "'w \<Rightarrow> error option \<times> 'w"
  pricer_CheapestPeer :: "bytes \<Rightarrow> bytes list \<Rightarrow> bool \<Rightarrow> 'w \<Rightarrow> (error + bytes) \<times> 'w"
  pricer_PeerPrice :: "bytes \<Rightarrow> bytes \<Rightarrow> 'w \<Rightarrow> price \<times> 'w"
  pricer_PriceForPeer :: "bytes \<Rightarrow> bytes \<Rightarrow> 'w \<Rightarrow> price \<times> 'w"
  pricer_NotifyPeerPrice :: "bytes \<Rightarrow> price \<Rightarrow> 8 word \<Rightarrow> 'w \<Rightarrow> error option \<times> 'w"
  MakePricingHeaders :: "price \<Rightarrow> bytes \<Rightarrow> error + headers"
  ParsePricingResponseHeaders :: "headers \<Rightarrow> error + (bytes \<times> price \<times> 8 word)"
  ParsePriceHeader :: "headers \<Rightarrow> error + price"
  streamer_NewStream :: "bytes \<Rightarrow> headers \<Rightarrow> 'w \<Rightarrow> (error + stream) \<times> 'w"
  stream_Headers :: "stream \<Rightarrow> 'w \<Rightarrow> headers \<times> 'w"
  stream_Reset :: "stream \<Rightarrow> 'w \<Rightarrow> unit \<times> 'w"
  stream_WriteDelivery :: "stream \<Rightarrow> pb_Delivery \<Rightarrow> 'w \<Rightarrow> error option \<times> 'w"
  stream_ReadReceipt :: "stream \<Rightarrow> 'w \<Rightarrow> (error + pb_Receipt) \<times> 'w"
  accounting_Reserve :: "bytes \<Rightarrow> price \<Rightarrow> 'w \<Rightarrow> error option \<times> 'w"
  accounting_Release :: "bytes \<Rightarrow> price \<Rightarrow> 'w \<Rightarrow> unit \<times> 'w"
  accounting_Credit :: "bytes \<Rightarrow> price \<Rightarrow> 'w \<Rightarrow> error option \<times> 'w"
  accounting_Debit :: "bytes \<Rightarrow> price \<Rightarrow> 'w \<Rightarrow> error option \<times> 'w"
  tagger_Get :: "32 word \<Rightarrow> 'w \<Rightarrow> (tag option \<times> error option) \<times> 'w"
  tag_Inc :: "tag \<Rightarrow> 'w \<Rightarrow> error option \<times> 'w"
  up_ReadDelivery :: "'w \<Rightarrow> (error + pb_Delivery) \<times> 'w"
  up_ResponseHeaders :: "'w \<Rightarrow> headers \<times> 'w"
  up_WriteReceipt :: "pb_Receipt \<Rightarrow> 'w \<Rightarrow> error option \<times> 'w"
  cac_Valid :: "Chunk \<Rightarrow> bool"
  soc_Valid :: "Chunk \<Rightarrow> bool"
  DistanceCmp :: "bytes \<Rightarrow> bytes \<Rightarrow> bytes \<Rightarrow> int \<times> error option"
  topology_IsWithinDepth :: "bytes \<Rightarrow> 'w \<Rightarrow> bool \<times> 'w"
  topology_Neighbors :: "'w \<Rightarrow> (bytes \<times> 8 word) list \<times> 'w"
  storer_Put :: "Chunk \<Rightarrow> 'w \<Rightarrow> error option \<times> 'w"
  signer_Sign :: "bytes \<Rightarrow> 'w \<Rightarrow> (error + bytes) \<times> 'w"

text \<open>
  The state a function of the package runs in: the outside state and the events so far.
  \<open>call\<close> makes a collaborator call and records it, \<open>query\<close> makes one that is not
  recorded (a getter), \<open>emit\<close> records an event that has no result.
\<close>

record 'w sys =
  world :: 'w
  trace :: "event list"

definition call ::
  "('w \<Rightarrow> 'r \<times> 'w) \<Rightarrow> ('r \<Rightarrow> event) \<Rightarrow> ('w, 'm) sys_scheme \<Rightarrow> 'r \<times> ('w, 'm) sys_scheme" where
  "call f ev s = (case f (world s) of (r, w) \<Rightarrow> (r, s\<lparr>world := w, trace := trace s @ [ev r]\<rparr>))"

definition query ::
  "('w \<Rightarrow> 'r \<times> 'w) \<Rightarrow> ('w, 'm) sys_scheme \<Rightarrow> 'r \<times> ('w, 'm) sys_scheme" where
  "query f s = (case f (world s) of (r, w) \<Rightarrow> (r, s\<lparr>world := w\<rparr>))"

definition emit :: "event \<Rightarrow> ('w, 'm) sys_scheme \<Rightarrow> ('w, 'm) sys_scheme" where
  "emit e s = s\<lparr>trace := trace s @ [e]\<rparr>"

section \<open>pushToClosest\<close>

text \<open>
  The locals of \<open>pushToClosest\<close> that live across loop iterations: \<open>skipPeers\<close>,
  \<open>lastErr\<close> and the list \<open>deferFuncs\<close> of cleanup closures. A closure is
  represented by what it does when run: the logging closure of line 331 reads
  \<open>lastErr\<close> when it runs; the others hold the stream, or the peer and the price, of
  the iteration that appended them.
\<close>

datatype deferred =
    DeferLog
  | DeferFullClose stream
  | DeferRelease bytes price
  | DeferCanceld

record 'w pstate = "'w sys" +
  skipPeers :: "bytes list"
  lastErr :: "error option"
  deferFuncs :: "deferred list"

datatype 'w outcome =
    Continue "'w pstate"
  | Return "error + pb_Receipt" "'w pstate"

definition setLastErr :: "error \<Rightarrow> 'w pstate \<Rightarrow> 'w pstate" where
  "setLastErr e st = emit (EvLastErr e) (st\<lparr>lastErr := Some e\<rparr>)"

definition appendDefer :: "deferred \<Rightarrow> 'w pstate \<Rightarrow> 'w pstate" where
  "appendDefer d st = st\<lparr>deferFuncs := deferFuncs st @ [d]\<rparr>"

fun runDeferred :: "'w PushSync \<Rightarrow> deferred \<Rightarrow> 'w pstate \<Rightarrow> 'w pstate" where
  "runDeferred ps DeferLog st =
     (case lastErr st of
        None \<Rightarrow> st
      | Some e \<Rightarrow> emit (EvLoggerErrorf e) (emit EvTotalErrorsInc st))"
| "runDeferred ps (DeferFullClose streamer) st = emit (EvGoFullClose streamer) st"
| "runDeferred ps (DeferRelease peer receiptPrice) st =
     snd (call (accounting_Release ps peer receiptPrice) (\<lambda>_. EvRelease peer receiptPrice) st)"
| "runDeferred ps DeferCanceld st = emit EvCanceld st"

text \<open>\<open>defersFn\<close> (lines 303-310): run the closures in order, then empty the list.\<close>

definition defersFn :: "'w PushSync \<Rightarrow> 'w pstate \<Rightarrow> 'w pstate" where
  "defersFn ps st =
     (if length (deferFuncs st) > 0
      then (fold (runDeferred ps) (deferFuncs st) st)\<lparr>deferFuncs := []\<rparr>
      else st)"

text \<open>Lines 415-433: read the receipt, compare its address, credit the peer.\<close>

definition receive ::
  "'w PushSync \<Rightarrow> Chunk \<Rightarrow> bytes \<Rightarrow> stream \<Rightarrow> price \<Rightarrow> 'w pstate \<Rightarrow> 'w outcome" where
  "receive ps ch peer streamer receiptPrice st0 =
     (case call (stream_ReadReceipt ps streamer) (EvReadReceipt peer streamer) st0 of
        (Inl e, st) \<Rightarrow>
          (case call (stream_Reset ps streamer) (\<lambda>_. EvReset streamer) st of (_, st) \<Rightarrow>
           Continue (setLastErr (Wrapf (MsgReceiveReceipt (addr ch) peer) e) st))
      | (Inr receipt, st) \<Rightarrow>
          if addr ch \<noteq> pb_Receipt.Address receipt
          then Continue (setLastErr (Fmt (MsgInvalidReceipt (addr ch) peer)) st)
          else
            (case call (accounting_Credit ps peer receiptPrice) (EvCredit peer receiptPrice) st of
               (Some e, st) \<Rightarrow> Return (Inl e) st
             | (None, st) \<Rightarrow> Return (Inr receipt) st))"

text \<open>
  Lines 380-413: save the peer in \<open>skipPeers\<close>, reserve, register the release, send the
  delivery, count it on the tag.
\<close>

definition deliver ::
  "'w PushSync \<Rightarrow> Chunk \<Rightarrow> bytes \<Rightarrow> stream \<Rightarrow> price \<Rightarrow> 'w pstate \<Rightarrow> 'w outcome" where
  "deliver ps ch peer streamer receiptPrice st0 =
     (let st1 = st0\<lparr>skipPeers := skipPeers st0 @ [peer]\<rparr> in
      case call (accounting_Reserve ps peer receiptPrice) (EvReserve peer receiptPrice) st1 of
        (Some e, st) \<Rightarrow> Return (Inl (Wrapf (MsgReserve peer) e)) st
      | (None, st2) \<Rightarrow>
          (let st3 = appendDefer DeferCanceld (appendDefer (DeferRelease peer receiptPrice) st2);
               d = \<lparr>pb_Delivery.Address = addr ch, Data = sdata ch\<rparr> in
           (case call (stream_WriteDelivery ps streamer d) (EvWriteDelivery peer streamer d) st3 of
              (Some e, st) \<Rightarrow>
                (case call (stream_Reset ps streamer) (\<lambda>_. EvReset streamer) st of (_, st) \<Rightarrow>
                 Continue (setLastErr (Wrapf (MsgDeliver (addr ch) peer) e) st))
            | (None, st4) \<Rightarrow>
                (case query (tagger_Get ps (tagID ch)) (emit EvTotalSentInc st4) of
                   ((Some t, None), st5) \<Rightarrow>
                     (case call (tag_Inc ps t) (EvTagInc t) st5 of
                        (Some e, st) \<Rightarrow>
                          Return (Inl (Fmtv (MsgTagIncrement (tagID ch)) e))
                                 (setLastErr (Fmtv (MsgTagIncrement (tagID ch)) e) st)
                      | (None, st) \<Rightarrow> receive ps ch peer streamer receiptPrice st)
                 | (_, st5) \<Rightarrow> receive ps ch peer streamer receiptPrice st5))))"

text \<open>
  Lines 354-378: parse the returned pricing headers; on a price other than the proposed
  one, notify the pricer and ask for the cheapest peer again.
\<close>

definition negotiate ::
  "'w PushSync \<Rightarrow> Chunk \<Rightarrow> bytes \<Rightarrow> stream \<Rightarrow> price \<Rightarrow> 'w pstate \<Rightarrow> 'w outcome" where
  "negotiate ps ch peer streamer receiptPrice st0 =
     (case query (stream_Headers ps streamer) st0 of (returnedHeaders, st1) \<Rightarrow>
      (case ParsePricingResponseHeaders ps returnedHeaders of
        Inl e \<Rightarrow> Continue st1
      | Inr (_, returnedPrice, returnedIndex) \<Rightarrow>
          if returnedPrice \<noteq> receiptPrice
          then
            (case call (pricer_NotifyPeerPrice ps peer returnedPrice returnedIndex)
                       (EvNotifyPeerPrice peer returnedPrice returnedIndex) st1 of
               (Some e, st) \<Rightarrow> Continue st
             | (None, st2) \<Rightarrow>
                 (case call (pricer_CheapestPeer ps (addr ch) (skipPeers st2) False)
                            (EvCheapestPeer (skipPeers st2)) st2 of
                    (Inr currentCheapestPeer, st) \<Rightarrow>
                      if currentCheapestPeer \<noteq> peer
                      then Continue st
                      else deliver ps ch peer streamer returnedPrice st
                  | (Inl e, st) \<Rightarrow> deliver ps ch peer streamer returnedPrice st))
          else deliver ps ch peer streamer receiptPrice st1))"

text \<open>
  One iteration of the loop of line 313, from the check of the context to the opening of
  the stream (lines 314-352), continued by \<open>negotiate\<close>.
\<close>

definition attempt :: "'w PushSync \<Rightarrow> Chunk \<Rightarrow> 'w pstate \<Rightarrow> 'w outcome" where
  "attempt ps ch st0 =
     (case query (ctx_Done ps) st0 of
        (Some e, st) \<Rightarrow> Return (Inl e) st
      | (None, st1) \<Rightarrow>
          (let st2 = defersFn ps st1 in
          (case call (pricer_CheapestPeer ps (addr ch) (skipPeers st2) False)
                    (EvCheapestPeer (skipPeers st2)) st2 of
            (Inl e, st) \<Rightarrow> Return (Inl (Wrapf MsgClosestPeer e)) st
          | (Inr peer, st3) \<Rightarrow>
              (case query (pricer_PeerPrice ps peer (addr ch)) (appendDefer DeferLog st3) of
                 (receiptPrice, st4) \<Rightarrow>
                   (case MakePricingHeaders ps receiptPrice (addr ch) of
                      Inl e \<Rightarrow> Continue st4
                    | Inr hdrs \<Rightarrow>
                        (case call (streamer_NewStream ps peer hdrs) (EvNewStream peer) st4 of
                           (Inl e, st) \<Rightarrow> Continue (setLastErr (Wrapf (MsgNewStream peer) e) st)
                         | (Inr streamer, st) \<Rightarrow>
                             negotiate ps ch peer streamer receiptPrice
                               (appendDefer (DeferFullClose streamer) st)))))))"

text \<open>
  The loop \<open>for i := 0; i < maxPeers; i++\<close> and the code after it (lines 436-442).
  \<open>continue\<close> is the next iteration, \<open>return\<close> leaves the loop with the result.
\<close>

function loop :: "'w PushSync \<Rightarrow> Chunk \<Rightarrow> nat \<Rightarrow> 'w pstate \<Rightarrow> (error + pb_Receipt) \<times> 'w pstate" where
  "loop ps ch i st =
     (if i < maxPeers
      then (case attempt ps ch st of
              Continue st' \<Rightarrow> loop ps ch (Suc i) st'
            | Return r st' \<Rightarrow> (r, st'))
      else (case lastErr st of
              Some e \<Rightarrow> (Inl e, emit EvLoggerTracefReached st)
            | None \<Rightarrow> (Inl ErrNotFound, emit EvLoggerTracefReached st)))"
  by pat_completeness auto
termination
  by (relation "measure (\<lambda>(ps, ch, i, st). maxPeers - i)") auto

declare loop.simps [simp del]

text \<open>
  \<open>pushToClosest\<close>: the locals start empty, the loop runs, and the deferred
  \<open>defersFn\<close> of line 311 runs once more when the function returns. The result is the
  returned pair (as a sum), the outside state and the events of the call.
\<close>

definition init :: "'w \<Rightarrow> 'w pstate" where
  "init w = \<lparr>world = w, trace = [], skipPeers = [], lastErr = None, deferFuncs = []\<rparr>"

definition pushToClosest ::
  "'w PushSync \<Rightarrow> Chunk \<Rightarrow> 'w \<Rightarrow> (error + pb_Receipt) \<times> 'w \<times> event list" where
  "pushToClosest ps ch w =
     (case loop ps ch 0 (init w) of (r, st) \<Rightarrow>
      let st' = defersFn ps st in (r, world st', trace st'))"

definition PushChunkToClosest ::
  "'w PushSync \<Rightarrow> Chunk \<Rightarrow> 'w \<Rightarrow> (error + Receipt) \<times> 'w \<times> event list" where
  "PushChunkToClosest ps ch w =
     (case pushToClosest ps ch w of
        (Inl err, w', evs) \<Rightarrow> (Inl err, w', evs)
      | (Inr r, w', evs) \<Rightarrow>
          (Inr \<lparr>Receipt.Address = pb_Receipt.Address r, Signature = pb_Receipt.Signature r\<rparr>,
           w', evs))"

section \<open>handler\<close>

text \<open>
  The callback given to \<open>EachNeighbor\<close> (lines 182-251). It returns the triple
  (stop, jump to next, error) of \<open>topology.EachPeerFunc\<close>; \<open>count\<close> is the local
  counter of line 179. The goroutine of line 194 runs concurrently with the rest of the
  handler; its launch is the event \<open>EvGoReplicate\<close>.
\<close>

definition replicate_visit ::
  "p2p_Peer \<Rightarrow> bytes \<Rightarrow> 8 word \<Rightarrow> nat \<times> 'w sys \<Rightarrow> (bool \<times> bool \<times> error option) \<times> nat \<times> 'w sys" where
  "replicate_visit p peer po cs =
     (case cs of (count, s) \<Rightarrow>
        if peer = p2p_Peer.Address p then ((False, False, None), count, s)
        else if count = nPeersToPushsync then ((True, False, None), count, s)
        else ((False, False, None), count + 1, emit (EvGoReplicate peer) s))"

text \<open>
  Modelled from the spec: \<open>EachNeighbor\<close> of the topology driver is not part of the
  package. The spec gives it as \<open>EachNeighbor(visit)\<close>, enumerating neighbour peers with
  early-stop support: the callback is applied to the neighbours in order, and the
  enumeration ends at the first callback that returns an error (which is returned) or
  asks to stop.
\<close>

fun EachNeighbor ::
  "(bytes \<Rightarrow> 8 word \<Rightarrow> 'a \<Rightarrow> (bool \<times> bool \<times> error option) \<times> 'a) \<Rightarrow> (bytes \<times> 8 word) list \<Rightarrow> 'a
     \<Rightarrow> error option \<times> 'a" where
  "EachNeighbor f [] a = (None, a)"
| "EachNeighbor f ((peer, po) # rest) a =
     (case f peer po a of
        ((_, _, Some e), a') \<Rightarrow> (Some e, a')
      | ((True, _, None), a') \<Rightarrow> (None, a')
      | ((False, _, None), a') \<Rightarrow> EachNeighbor f rest a')"

text \<open>
  Lines 174-267: this node is the closest one. Store the chunk, launch the replication
  to the neighbours, sign the receipt, send it upstream, debit the upstream peer.
  An error of \<open>EachNeighbor\<close> is only logged.
\<close>

definition terminal :: "'w PushSync \<Rightarrow> p2p_Peer \<Rightarrow> Chunk \<Rightarrow> price \<Rightarrow> 'w sys \<Rightarrow> error option \<times> 'w sys" where
  "terminal ps p chunk price s0 =
     (case call (storer_Put ps chunk) (EvPut chunk) s0 of
        (Some e, s) \<Rightarrow> (Some (Wrapf MsgChunkStore e), s)
      | (None, s1) \<Rightarrow>
          (case query (topology_Neighbors ps) s1 of (neighbors, s2) \<Rightarrow>
           (case EachNeighbor (replicate_visit p) neighbors (0, s2) of (_, _, s3) \<Rightarrow>
            (case call (signer_Sign ps (addr chunk)) (EvSign (addr chunk)) s3 of
               (Inl e, s) \<Rightarrow> (Some (Wrapf MsgReceiptSignature e), s)
             | (Inr signature, s4) \<Rightarrow>
                 (let receipt = \<lparr>pb_Receipt.Address = addr chunk, Signature = signature\<rparr> in
                  (case call (up_WriteReceipt ps receipt) (EvWriteReceipt receipt) s4 of
                     (Some e, s) \<Rightarrow> (Some (Wrapf (MsgSendReceipt (p2p_Peer.Address p)) e), s)
                   | (None, s5) \<Rightarrow>
                       call (accounting_Debit ps (p2p_Peer.Address p) price)
                            (EvDebit (p2p_Peer.Address p) price) s5))))))"

text \<open>
  Lines 160-278: the forwarding case. Store the chunk when it is within depth (a failure
  is logged), push it to the closest peer, and pass the receipt back; on
  \<open>ErrWantSelf\<close> this node is the \<open>terminal\<close> one.
\<close>

definition forward :: "'w PushSync \<Rightarrow> p2p_Peer \<Rightarrow> Chunk \<Rightarrow> price \<Rightarrow> 'w sys \<Rightarrow> error option \<times> 'w sys" where
  "forward ps p chunk price s0 =
     (case query (topology_IsWithinDepth ps (addr chunk)) s0 of (within, s1) \<Rightarrow>
      (let s2 = (if within then snd (call (storer_Put ps chunk) (EvPut chunk) s1) else s1) in
       (case pushToClosest ps chunk (world s2) of (res, w, evs) \<Rightarrow>
        (let s3 = s2\<lparr>world := w, trace := trace s2 @ evs\<rparr> in
         (case res of
            Inl err \<Rightarrow>
              if errors_Is err ErrWantSelf
              then terminal ps p chunk price s3
              else (Some (Wrapf MsgHandlerPush err), s3)
          | Inr receipt \<Rightarrow>
              (case call (up_WriteReceipt ps receipt) (EvWriteReceipt receipt) s3 of
                 (Some e, s) \<Rightarrow> (Some (Wrapf (MsgSendReceipt (p2p_Peer.Address p)) e), s)
               | (None, s4) \<Rightarrow>
                   call (accounting_Debit ps (p2p_Peer.Address p) price)
                        (EvDebit (p2p_Peer.Address p) price) s4))))))"

text \<open>
  Lines 146-158, continued by \<open>forward\<close>: when the upstream peer is closer to the chunk
  than this node (\<open>DistanceCmp\<close> gives 1), this node was selected for replication.
\<close>

definition decide :: "'w PushSync \<Rightarrow> p2p_Peer \<Rightarrow> Chunk \<Rightarrow> price \<Rightarrow> 'w sys \<Rightarrow> error option \<times> 'w sys" where
  "decide ps p chunk price s0 =
     (if fst (DistanceCmp ps (addr chunk) (p2p_Peer.Address p) (address ps)) = 1
      then
        (case query (topology_IsWithinDepth ps (addr chunk)) s0 of
           (True, s1) \<Rightarrow>
             (case call (storer_Put ps chunk) (EvPut chunk) s1 of (_, s2) \<Rightarrow>
              call (accounting_Debit ps (p2p_Peer.Address p) price)
                   (EvDebit (p2p_Peer.Address p) price) s2)
         | (False, s1) \<Rightarrow> (Some ErrOutOfDepthReplication, s1))
      else forward ps p chunk price s0)"

text \<open>
  Lines 121-144: read the delivery, check the chunk (launching \<open>unwrap\<close> for a valid
  content-addressed chunk), and find the price for the upstream peer: the one in the
  response headers, or else the one the pricer computes. The result is the error the
  handler returns here, or the chunk and the price it goes on with.
\<close>

definition prepare ::
  "'w PushSync \<Rightarrow> p2p_Peer \<Rightarrow> 'w sys \<Rightarrow> (error \<times> 'w sys) + (Chunk \<times> price \<times> 'w sys)" where
  "prepare ps p s0 =
     (case call (up_ReadDelivery ps) EvReadDelivery s0 of
        (Inl e, s) \<Rightarrow> Inl (Wrapf MsgReadDelivery e, s)
      | (Inr ch, s) \<Rightarrow>
          (let s1 = emit EvTotalReceivedInc s;
               chunk = NewChunk (pb_Delivery.Address ch) (pb_Delivery.Data ch) in
           (case (if cac_Valid ps chunk
                  then Inr (if unwrap ps then emit (EvGoUnwrap chunk) s1 else s1)
                  else if \<not> soc_Valid ps chunk then Inl ErrInvalidChunk
                  else Inr s1) of
              Inl e \<Rightarrow> Inl (e, s1)
            | Inr s2 \<Rightarrow>
                (case query (up_ResponseHeaders ps) s2 of (responseHeaders, s3) \<Rightarrow>
                 (case ParsePriceHeader ps responseHeaders of
                    Inl e \<Rightarrow>
                      (case query (pricer_PriceForPeer ps (p2p_Peer.Address p) (addr chunk)) s3 of
                         (price, s4) \<Rightarrow> Inr (chunk, price, s4))
                  | Inr price \<Rightarrow> Inr (chunk, price, s3))))))"

definition handler_body :: "'w PushSync \<Rightarrow> p2p_Peer \<Rightarrow> 'w sys \<Rightarrow> error option \<times> 'w sys" where
  "handler_body ps p s0 =
     (case prepare ps p s0 of
        Inl (e, s) \<Rightarrow> (Some e, s)
      | Inr (chunk, price, s) \<Rightarrow> decide ps p chunk price s)"

text \<open>
  \<open>handler\<close>: the body, then the deferred function of lines 113-120, which resets the
  upstream stream when the handler returns an error and closes it otherwise.
\<close>

definition handler :: "'w PushSync \<Rightarrow> p2p_Peer \<Rightarrow> 'w \<Rightarrow> error option \<times> 'w \<times> event list" where
  "handler ps p w =
     (case handler_body ps p \<lparr>world = w, trace = []\<rparr> of
        (Some e, s) \<Rightarrow> (Some e, world s, trace s @ [EvTotalErrorsInc, EvStreamReset])
      | (None, s) \<Rightarrow> (None, world s, trace s @ [EvStreamFullClose]))"

section \<open>Observations on the events of a call\<close>

text \<open>
  What a list of events says about the ledger: the reservations made (the \<open>Reserve\<close>
  calls that returned no error), the releases, and the \<open>Credit\<close> calls with their
  results, each as the list of its peers and amounts in the order of the calls.
  \<open>pending\<close> are the releases that wait in \<open>deferFuncs\<close>.
\<close>

fun reservedOf :: "event \<Rightarrow> (bytes \<times> price) list" where
  "reservedOf (EvReserve p a None) = [(p, a)]"
| "reservedOf _ = []"

fun releasedOf :: "event \<Rightarrow> (bytes \<times> price) list" where
  "releasedOf (EvRelease p a) = [(p, a)]"
| "releasedOf _ = []"

fun creditedOf :: "event \<Rightarrow> (bytes \<times> price \<times> error option) list" where
  "creditedOf (EvCredit p a r) = [(p, a, r)]"
| "creditedOf _ = []"

fun pendingOf :: "deferred \<Rightarrow> (bytes \<times> price) list" where
  "pendingOf (DeferRelease p a) = [(p, a)]"
| "pendingOf _ = []"

definition reservations :: "event list \<Rightarrow> (bytes \<times> price) list" where
  "reservations evs = concat (map reservedOf evs)"

definition releases :: "event list \<Rightarrow> (bytes \<times> price) list" where
  "releases evs = concat (map releasedOf evs)"

definition credits :: "event list \<Rightarrow> (bytes \<times> price \<times> error option) list" where
  "credits evs = concat (map creditedOf evs)"

definition pending :: "deferred list \<Rightarrow> (bytes \<times> price) list" where
  "pending ds = concat (map pendingOf ds)"

text \<open>The events a cleanup closure leaves when it runs while \<open>lastErr\<close> is \<open>le\<close>.\<close>

fun deferredEvents :: "error option \<Rightarrow> deferred \<Rightarrow> event list" where
  "deferredEvents le DeferLog =
     (case le of None \<Rightarrow> [] | Some e \<Rightarrow> [EvTotalErrorsInc, EvLoggerErrorf e])"
| "deferredEvents le (DeferFullClose streamer) = [EvGoFullClose streamer]"
| "deferredEvents le (DeferRelease peer receiptPrice) = [EvRelease peer receiptPrice]"
| "deferredEvents le DeferCanceld = [EvCanceld]"

text \<open>The state an iteration ends in, and a pair of conditions on how it ends.\<close>

fun state_of :: "'w outcome \<Rightarrow> 'w pstate" where
  "state_of (Continue st) = st"
| "state_of (Return r st) = st"

fun ends ::
  "('w pstate \<Rightarrow> bool) \<Rightarrow> (error + pb_Receipt \<Rightarrow> 'w pstate \<Rightarrow> bool) \<Rightarrow> 'w outcome \<Rightarrow> bool" where
  "ends I Q (Continue st) = I st"
| "ends I Q (Return r st) = Q r st"

text \<open>
  Every reservation made so far is released or waits in \<open>deferFuncs\<close> to be released.
\<close>

definition balanced :: "'w pstate \<Rightarrow> bool" where
  "balanced st = (reservations (trace st) = releases (trace st) @ pending (deferFuncs st))"

text \<open>
  While the loop runs no credit has been issued. When an iteration returns, at most one
  has; and when it returns a receipt, the receipt has the address of the chunk and the
  one credit went, without error, to the peer whose stream the receipt was read from.
\<close>

definition unsettled :: "'w pstate \<Rightarrow> bool" where
  "unsettled st = (balanced st \<and> credits (trace st) = [])"

definition settled :: "Chunk \<Rightarrow> error + pb_Receipt \<Rightarrow> 'w pstate \<Rightarrow> bool" where
  "settled ch r st =
     (balanced st \<and>
      (case r of
         Inl e \<Rightarrow> length (credits (trace st)) \<le> 1
       | Inr rc \<Rightarrow>
           pb_Receipt.Address rc = addr ch \<and>
           (\<exists>peer a s. credits (trace st) = [(peer, a, None)] \<and>
              EvReadReceipt peer s (Inr rc) \<in> set (trace st))))"

text \<open>
  The peers \<open>Reserve\<close> was called for, the peers a stream was opened to and the skip
  lists \<open>CheapestPeer\<close> was called with, each in the order of the calls.
\<close>

fun reservedPeerOf :: "event \<Rightarrow> bytes list" where
  "reservedPeerOf (EvReserve p a r) = [p]"
| "reservedPeerOf _ = []"

fun openedOf :: "event \<Rightarrow> bytes list" where
  "openedOf (EvNewStream p r) = [p]"
| "openedOf _ = []"

fun queriedOf :: "event \<Rightarrow> bytes list list" where
  "queriedOf (EvCheapestPeer skip q) = [skip]"
| "queriedOf _ = []"

definition reservedPeers :: "event list \<Rightarrow> bytes list" where
  "reservedPeers evs = concat (map reservedPeerOf evs)"

definition streams_opened :: "event list \<Rightarrow> bytes list" where
  "streams_opened evs = concat (map openedOf evs)"

definition skips_queried :: "event list \<Rightarrow> bytes list list" where
  "skips_queried evs = concat (map queriedOf evs)"

text \<open>
  Every \<open>CheapestPeer\<close> call in the events is made with exactly the peers \<open>Reserve\<close>
  was called for before it (after the peers \<open>seen\<close>), in that order.
\<close>

fun skips_follow :: "bytes list \<Rightarrow> event list \<Rightarrow> bool" where
  "skips_follow seen [] = True"
| "skips_follow seen (EvCheapestPeer skip q # evs) = (skip = seen \<and> skips_follow seen evs)"
| "skips_follow seen (ev # evs) = skips_follow (seen @ reservedPeerOf ev) evs"

text \<open>
  The contract of \<open>CheapestPeer\<close> that the skip list is for: it never returns a peer of
  the list it is given.
\<close>

definition honours_skip :: "'w PushSync \<Rightarrow> bool" where
  "honours_skip ps =
     (\<forall>a skip up w p. fst (pricer_CheapestPeer ps a skip up w) = Inr p \<longrightarrow> p \<notin> set skip)"

definition tracked :: "bool \<Rightarrow> 'w pstate \<Rightarrow> bool" where
  "tracked h st =
     (skips_follow [] (trace st) \<and> reservedPeers (trace st) = skipPeers st \<and>
      (h \<longrightarrow> distinct (skipPeers st)))"

text \<open>
  The receipts read from a stream whose address is the address of the chunk, each with the
  peer it was read from. While the loop runs there is none; an iteration that returns
  after one has credited that peer, and returns the receipt when the credit succeeded
  and the error of \<open>Credit\<close> otherwise.
\<close>

fun acceptedOf :: "Chunk \<Rightarrow> event \<Rightarrow> (bytes \<times> pb_Receipt) list" where
  "acceptedOf ch (EvReadReceipt p s (Inr rc)) =
     (if pb_Receipt.Address rc = addr ch then [(p, rc)] else [])"
| "acceptedOf ch _ = []"

definition accepted :: "Chunk \<Rightarrow> event list \<Rightarrow> (bytes \<times> pb_Receipt) list" where
  "accepted ch evs = concat (map (acceptedOf ch) evs)"



text \<open>
  The \<open>Reserve\<close> calls that returned an error, and the events that the cleanup closures
  leave. While the loop runs no \<open>Reserve\<close> call has failed; an iteration that returns
  after one failed returns at once, with that error.
\<close>

fun refusedOf :: "event \<Rightarrow> (bytes \<times> price \<times> error) list" where
  "refusedOf (EvReserve p a (Some e)) = [(p, a, e)]"
| "refusedOf _ = []"

definition refused :: "event list \<Rightarrow> (bytes \<times> price \<times> error) list" where
  "refused evs = concat (map refusedOf evs)"

fun cleanup :: "event \<Rightarrow> bool" where
  "cleanup EvTotalErrorsInc = True"
| "cleanup (EvLoggerErrorf e) = True"
| "cleanup (EvGoFullClose s) = True"
| "cleanup (EvRelease p a) = True"
| "cleanup EvCanceld = True"
| "cleanup _ = False"



text \<open>
  The errors assigned to \<open>lastErr\<close>, in order. \<open>continues ps ch n st\<close> is the
  state after \<open>n\<close> iterations from \<open>st\<close> that all ended in \<open>continue\<close>, if they did.
\<close>

fun recordedOf :: "event \<Rightarrow> error list" where
  "recordedOf (EvLastErr e) = [e]"
| "recordedOf _ = []"

definition recorded :: "event list \<Rightarrow> error list" where
  "recorded evs = concat (map recordedOf evs)"

text \<open>
  The retryable failures among the results of the collaborators' calls, each as the error
  value the code builds for it: a stream that could not be opened (line 349), a delivery
  that could not be written (line 398), a receipt that could not be read (line 418), and
  a receipt read with another address than the chunk's (line 424). \<open>last_failure\<close> is
  the last of them, if there is one.
\<close>

fun failureOf :: "Chunk \<Rightarrow> event \<Rightarrow> error list" where
  "failureOf ch (EvNewStream peer (Inl e)) = [Wrapf (MsgNewStream peer) e]"
| "failureOf ch (EvWriteDelivery peer s d (Some e)) = [Wrapf (MsgDeliver (addr ch) peer) e]"
| "failureOf ch (EvReadReceipt peer s (Inl e)) = [Wrapf (MsgReceiveReceipt (addr ch) peer) e]"
| "failureOf ch (EvReadReceipt peer s (Inr rc)) =
     (if addr ch \<noteq> pb_Receipt.Address rc then [Fmt (MsgInvalidReceipt (addr ch) peer)] else [])"
| "failureOf ch _ = []"

definition failures :: "Chunk \<Rightarrow> event list \<Rightarrow> error list" where
  "failures ch evs = concat (map (failureOf ch) evs)"

definition last_failure :: "Chunk \<Rightarrow> event list \<Rightarrow> error option" where
  "last_failure ch evs = (if failures ch evs = [] then None else Some (last (failures ch evs)))"

text \<open>
  Between iterations: the errors assigned to \<open>lastErr\<close> are exactly the retryable
  failures, \<open>lastErr\<close> holds the last of them, no reservation was made without a
  failure after it, and \<open>CheapestPeer\<close> was called at least \<open>k\<close> times. Inside an
  iteration, after the reservation (\<open>owing\<close>), the failure for it is still to come.
\<close>

definition attentive :: "Chunk \<Rightarrow> nat \<Rightarrow> 'w pstate \<Rightarrow> bool" where
  "attentive ch k st =
     (recorded (trace st) = failures ch (trace st) \<and>
      lastErr st = last_failure ch (trace st) \<and>
      length (reservations (trace st)) \<le> length (failures ch (trace st)) \<and>
      k \<le> length (skips_queried (trace st)))"

definition owing :: "Chunk \<Rightarrow> nat \<Rightarrow> 'w pstate \<Rightarrow> bool" where
  "owing ch k st =
     (recorded (trace st) = failures ch (trace st) \<and>
      lastErr st = last_failure ch (trace st) \<and>
      length (reservations (trace st)) \<le> Suc (length (failures ch (trace st))) \<and>
      k \<le> length (skips_queried (trace st)))"

fun continues :: "'w PushSync \<Rightarrow> Chunk \<Rightarrow> nat \<Rightarrow> 'w pstate \<Rightarrow> 'w pstate option" where
  "continues ps ch 0 st = Some st"
| "continues ps ch (Suc n) st =
     (case attempt ps ch st of
        Continue st' \<Rightarrow> continues ps ch n st'
      | Return r st' \<Rightarrow> None)"

text \<open>
  The iteration that starts in \<open>st\<close> ends at the \<open>continue\<close> of line 343 (the
  pricing headers could not be built) or at the \<open>continue\<close> of line 357 (the returned
  pricing headers could not be parsed): the context is not done, a peer is found, and
  either \<open>MakePricingHeaders\<close> fails, or the stream opens and
  \<open>ParsePricingResponseHeaders\<close> fails. \<open>header_failures ps ch n st\<close>: the \<open>n\<close>
  iterations from \<open>st\<close> all end so.
\<close>

definition header_failure :: "'w PushSync \<Rightarrow> Chunk \<Rightarrow> 'w pstate \<Rightarrow> bool" where
  "header_failure ps ch st =
     (case ctx_Done ps (world st) of
        (Some e, w0) \<Rightarrow> False
      | (None, w0) \<Rightarrow>
          (case pricer_CheapestPeer ps (addr ch) (skipPeers st) False
                  (world (defersFn ps (st\<lparr>world := w0\<rparr>))) of
             (Inl e, w1) \<Rightarrow> False
           | (Inr peer, w1) \<Rightarrow>
               (case pricer_PeerPrice ps peer (addr ch) w1 of (receiptPrice, w2) \<Rightarrow>
                (case MakePricingHeaders ps receiptPrice (addr ch) of
                   Inl e \<Rightarrow> True
                 | Inr hdrs \<Rightarrow>
                     (case streamer_NewStream ps peer hdrs w2 of
                        (Inl e, w3) \<Rightarrow> False
                      | (Inr streamer, w3) \<Rightarrow>
                          (case stream_Headers ps streamer w3 of (returnedHeaders, w4) \<Rightarrow>
                           (case ParsePricingResponseHeaders ps returnedHeaders of
                              Inl e \<Rightarrow> True
                            | Inr x \<Rightarrow> False)))))))"

fun header_failures :: "'w PushSync \<Rightarrow> Chunk \<Rightarrow> nat \<Rightarrow> 'w pstate \<Rightarrow> bool" where
  "header_failures ps ch 0 st = True"
| "header_failures ps ch (Suc n) st =
     (header_failure ps ch st \<and>
      (case attempt ps ch st of
         Continue st' \<Rightarrow> header_failures ps ch n st'
       | Return r st' \<Rightarrow> False))"

text \<open>
  What the deferred function of lines 113-120 leaves when the handler returns \<open>err\<close>.
\<close>

definition closing :: "error option \<Rightarrow> event list" where
  "closing err = (case err of None \<Rightarrow> [EvStreamFullClose] | Some e \<Rightarrow> [EvTotalErrorsInc, EvStreamReset])"

section \<open>Example nodes\<close>

text \<open>
  A node whose collaborators all succeed. Its outside state counts the price
  notifications: the cheapest peer is \<open>peerA\<close> until the first notification and
  \<open>peerB\<close> afterwards, each unless it is to be skipped. Every stream proposes and
  returns the price 10, and the receipt read from a stream has the address of
  \<open>chunk0\<close> and an empty signature.
\<close>

definition peerA :: bytes where
  "peerA = [1]"

definition peerB :: bytes where
  "peerB = [2]"

definition chunk0 :: Chunk where
  "chunk0 = \<lparr>addr = [7], sdata = [9], tagID = 0\<rparr>"

definition upstream :: p2p_Peer where
  "upstream = \<lparr>p2p_Peer.Address = [3]\<rparr>"

definition node :: "nat PushSync" where
  "node = \<lparr>
     address = [0],
     unwrap = False,
     ctx_Done = (\<lambda>w. (None, w)),
     pricer_CheapestPeer = (\<lambda>a skip up w.
        (if w = 0 \<and> peerA \<notin> set skip then Inr peerA
         else if peerB \<notin> set skip then Inr peerB
         else Inl ErrWantSelf, w)),
     pricer_PeerPrice = (\<lambda>peer a w. (10, w)),
     pricer_PriceForPeer = (\<lambda>peer a w. (10, w)),
     pricer_NotifyPeerPrice = (\<lambda>peer pr i w. (None, Suc w)),
     MakePricingHeaders = (\<lambda>pr a. Inr []),
     ParsePricingResponseHeaders = (\<lambda>h. Inr ([], 10, 0)),
     ParsePriceHeader = (\<lambda>h. Inr 10),
     streamer_NewStream = (\<lambda>peer h w. (Inr 1, w)),
     stream_Headers = (\<lambda>s w. ([], w)),
     stream_Reset = (\<lambda>s w. ((), w)),
     stream_WriteDelivery = (\<lambda>s d w. (None, w)),
     stream_ReadReceipt = (\<lambda>s w. (Inr \<lparr>pb_Receipt.Address = [7], Signature = []\<rparr>, w)),
     accounting_Reserve = (\<lambda>peer pr w. (None, w)),
     accounting_Release = (\<lambda>peer pr w. ((), w)),
     accounting_Credit = (\<lambda>peer pr w. (None, w)),
     accounting_Debit = (\<lambda>peer pr w. (None, w)),
     tagger_Get = (\<lambda>t w. ((None, None), w)),
     tag_Inc = (\<lambda>t w. (None, w)),
     up_ReadDelivery = (\<lambda>w. (Inr \<lparr>pb_Delivery.Address = [7], Data = [9]\<rparr>, w)),
     up_ResponseHeaders = (\<lambda>w. ([], w)),
     up_WriteReceipt = (\<lambda>r w. (None, w)),
     cac_Valid = (\<lambda>c. True),
     soc_Valid = (\<lambda>c. False),
     DistanceCmp = (\<lambda>a x y. (0, None)),
     topology_IsWithinDepth = (\<lambda>a w. (True, w)),
     topology_Neighbors = (\<lambda>w. ([([4], 1), ([3], 1), ([5], 1), ([6], 2), ([8], 2)], w)),
     storer_Put = (\<lambda>c w. (None, w)),
     signer_Sign = (\<lambda>a w. (Inr [5], w))\<rparr>"

text \<open>The same node when every write fails.\<close>

definition node_no_write :: "nat PushSync" where
  "node_no_write = node\<lparr>stream_WriteDelivery := (\<lambda>s d w. (Some (ErrOther ''write''), w))\<rparr>"

text \<open>The events of \<open>pushToClosest\<close> on \<open>node\<close> for \<open>chunk0\<close>.\<close>

definition events_ok :: "event list" where
  "events_ok =
     [EvCheapestPeer [] (Inr peerA), EvNewStream peerA (Inr 1), EvReserve peerA 10 None,
      EvWriteDelivery peerA 1 \<lparr>pb_Delivery.Address = [7], Data = [9]\<rparr> None,
      EvTotalSentInc,
      EvReadReceipt peerA 1 (Inr \<lparr>pb_Receipt.Address = [7], Signature = []\<rparr>),
      EvCredit peerA 10 None, EvGoFullClose 1, EvRelease peerA 10, EvCanceld]"


text \<open>
  The same node when the pricing headers cannot be built, when the returned pricing headers
  cannot be parsed, and when every peer returns the price 12 instead of the proposed 10.
\<close>

definition node_no_headers :: "nat PushSync" where
  "node_no_headers = node\<lparr>MakePricingHeaders := (\<lambda>pr a. Inl (ErrOther ''headers''))\<rparr>"

definition node_bad_headers :: "nat PushSync" where
  "node_bad_headers = node\<lparr>ParsePricingResponseHeaders := (\<lambda>h. Inl (ErrOther ''no price''))\<rparr>"

definition node_price_changed :: "nat PushSync" where
  "node_price_changed = node\<lparr>ParsePricingResponseHeaders := (\<lambda>h. Inr ([], 12, 0))\<rparr>"

text \<open>
  Nodes for the handler. For \<open>node_closer\<close> the upstream peer is closer to the chunk
  than the node itself; it comes with the chunk outside the node's depth, with a ledger
  that refuses the debit, and with a store that fails. For \<open>node_want_self\<close> no peer is
  closer than the node. \<open>received\<close> are the events of reading \<open>chunk0\<close> from the
  upstream stream.
\<close>

definition node_closer :: "nat PushSync" where
  "node_closer = node\<lparr>DistanceCmp := (\<lambda>a x y. (1, None))\<rparr>"

definition node_closer_outside :: "nat PushSync" where
  "node_closer_outside = node_closer\<lparr>topology_IsWithinDepth := (\<lambda>a w. (False, w))\<rparr>"

definition node_closer_no_debit :: "nat PushSync" where
  "node_closer_no_debit = node_closer\<lparr>accounting_Debit := (\<lambda>peer pr w. (Some (ErrOther ''debit''), w))\<rparr>"

definition node_closer_no_store :: "nat PushSync" where
  "node_closer_no_store = node_closer\<lparr>storer_Put := (\<lambda>c w. (Some (ErrOther ''disk''), w))\<rparr>"

definition node_want_self :: "nat PushSync" where
  "node_want_self = node\<lparr>pricer_CheapestPeer := (\<lambda>a skip up w. (Inl ErrWantSelf, w))\<rparr>"

definition received :: "event list" where
  "received = [EvReadDelivery (Inr \<lparr>pb_Delivery.Address = [7], Data = [9]\<rparr>), EvTotalReceivedInc]"

text \<open>
  The node when \<open>peerA\<close> cannot be dialled while \<open>peerB\<close> can, and the node with six
  peers, the cheapest one that is not skipped first, whose receipts all come back with
  another address than the chunk's.
\<close>

definition node_dead_peer :: "nat PushSync" where
  "node_dead_peer =
     node\<lparr>streamer_NewStream :=
            (\<lambda>peer h w. (if peer = peerA then Inl (ErrOther ''dial'') else Inr 1, w))\<rparr>"

definition node_bad_receipts :: "nat PushSync" where
  "node_bad_receipts =
     node\<lparr>pricer_CheapestPeer :=
            (\<lambda>a skip up w.
               (case filter (\<lambda>peer. peer \<notin> set skip) [[11], [12], [13], [14], [15], [16]] of
                  [] \<Rightarrow> Inl ErrWantSelf
                | peer # rest \<Rightarrow> Inr peer, w)),
          stream_ReadReceipt :=
            (\<lambda>s w. (Inr \<lparr>pb_Receipt.Address = [0], Signature = []\<rparr>, w))\<rparr>"

section \<open>Basic facts\<close>

lemma proj_append [simp]:
  "reservations (xs @ ys) = reservations xs @ reservations ys"
  "releases (xs @ ys) = releases xs @ releases ys"
  "credits (xs @ ys) = credits xs @ credits ys"
  "pending (ds @ es) = pending ds @ pending es"
  by (simp_all add: reservations_def releases_def credits_def pending_def)

lemma proj_Cons [simp]:
  "reservations (e # evs) = reservedOf e @ reservations evs"
  "releases (e # evs) = releasedOf e @ releases evs"
  "credits (e # evs) = creditedOf e @ credits evs"
  "pending (d # ds) = pendingOf d @ pending ds"
  by (simp_all add: reservations_def releases_def credits_def pending_def)

lemma proj_Nil [simp]:
  "reservations [] = []" "releases [] = []" "credits [] = []" "pending [] = []"
  by (simp_all add: reservations_def releases_def credits_def pending_def)

subsection \<open>The cleanup closures\<close>

lemma runDeferred_fields:
  "deferFuncs (runDeferred ps d st) = deferFuncs st"
  "skipPeers (runDeferred ps d st) = skipPeers st"
  "lastErr (runDeferred ps d st) = lastErr st"
  "trace (runDeferred ps d st) = trace st @ deferredEvents (lastErr st) d"
  by (cases d; simp add: emit_def call_def split: option.splits prod.splits)+

lemma fold_runDeferred:
  "deferFuncs (fold (runDeferred ps) ds st) = deferFuncs st"
  "skipPeers (fold (runDeferred ps) ds st) = skipPeers st"
  "lastErr (fold (runDeferred ps) ds st) = lastErr st"
  "trace (fold (runDeferred ps) ds st) = trace st @ concat (map (deferredEvents (lastErr st)) ds)"
  by (induction ds arbitrary: st; simp add: runDeferred_fields)+

lemma defersFn_fields:
  "deferFuncs (defersFn ps st) = []"
  "skipPeers (defersFn ps st) = skipPeers st"
  "lastErr (defersFn ps st) = lastErr st"
  "trace (defersFn ps st) = trace st @ concat (map (deferredEvents (lastErr st)) (deferFuncs st))"
  by (simp_all add: defersFn_def fold_runDeferred)

lemma deferredEvents_ledger1:
  "reservations (deferredEvents le d) = []"
  "releases (deferredEvents le d) = pendingOf d"
  "credits (deferredEvents le d) = []"
  by (cases d; simp split: option.splits)+

lemma deferredEvents_ledger:
  "reservations (concat (map (deferredEvents le) ds)) = []"
  "releases (concat (map (deferredEvents le) ds)) = pending ds"
  "credits (concat (map (deferredEvents le) ds)) = []"
  by (induction ds; simp add: deferredEvents_ledger1)+

subsection \<open>The loop\<close>

text \<open>
  A condition that every iteration keeps while it continues, and a condition on the
  result and the final state that every returning iteration and the code after the loop
  establish, give the condition on the result of the loop.
\<close>

lemma loop_ends:
  assumes "I st"
    and step: "\<And>st. I st \<Longrightarrow> ends I Q (attempt ps ch st)"
    and after: "\<And>st. I st \<Longrightarrow>
      Q (Inl (case lastErr st of Some e \<Rightarrow> e | None \<Rightarrow> ErrNotFound)) (emit EvLoggerTracefReached st)"
  shows "Q (fst (loop ps ch i st)) (snd (loop ps ch i st))"
  using assms(1)
proof (induction "maxPeers - i" arbitrary: i st)
  case 0
  then have "\<not> i < maxPeers" by simp
  with after[OF "0.prems"] show ?case
    by (simp add: loop.simps[of ps ch i st] split: option.splits)
next
  case (Suc n)
  then have less: "i < maxPeers" and n: "n = maxPeers - Suc i" by simp_all
  show ?case
  proof (cases "attempt ps ch st")
    case (Continue st')
    with step[OF Suc.prems] have "I st'" by simp
    with Suc.hyps(1)[OF n] Continue less show ?thesis
      by (simp add: loop.simps[of ps ch i st])
  next
    case (Return r st')
    with step[OF Suc.prems] have "Q r st'" by simp
    with Return less show ?thesis
      by (simp add: loop.simps[of ps ch i st])
  qed
qed

lemmas step_defs = call_def query_def setLastErr_def emit_def appendDefer_def

section \<open>Reservations, releases and credits\<close>

lemma receive_settles:
  "unsettled st \<Longrightarrow> ends unsettled (settled ch) (receive ps ch peer streamer receiptPrice st)"
  by (auto simp: receive_def unsettled_def settled_def balanced_def step_defs
           split: prod.splits sum.splits option.splits)

lemma deliver_settles:
  "unsettled st \<Longrightarrow> ends unsettled (settled ch) (deliver ps ch peer streamer receiptPrice st)"
  apply (simp add: deliver_def Let_def call_def query_def split: prod.splits option.splits)
  apply (intro conjI impI allI receive_settles)
  apply (auto simp: unsettled_def settled_def balanced_def step_defs)
  done

lemma negotiate_settles:
  "unsettled st \<Longrightarrow> ends unsettled (settled ch) (negotiate ps ch peer streamer receiptPrice st)"
  apply (simp add: negotiate_def Let_def call_def query_def
              split: prod.splits option.splits sum.splits)
  apply (intro conjI impI allI deliver_settles)
  apply (auto simp: unsettled_def settled_def balanced_def step_defs)
  done

lemma attempt_settles:
  "unsettled st \<Longrightarrow> ends unsettled (settled ch) (attempt ps ch st)"
  apply (simp add: attempt_def Let_def call_def query_def
              split: prod.splits option.splits sum.splits)
  apply (intro conjI impI allI negotiate_settles)
  apply (auto simp: unsettled_def settled_def balanced_def step_defs defersFn_fields
                    deferredEvents_ledger)
  done

lemma loop_settles:
  assumes "unsettled st"
  shows "settled ch (fst (loop ps ch i st)) (snd (loop ps ch i st))"
proof (rule loop_ends[where I = unsettled])
  show "unsettled st" by fact
  show "ends unsettled (settled ch) (attempt ps ch st)" if "unsettled st" for st :: "'a pstate"
    using that by (rule attempt_settles)
  show "settled ch (Inl (case lastErr st of Some e \<Rightarrow> e | None \<Rightarrow> ErrNotFound))
          (emit EvLoggerTracefReached st)" if "unsettled st" for st :: "'a pstate"
    using that by (simp add: unsettled_def settled_def balanced_def emit_def)
qed

lemma defersFn_settled:
  assumes "settled ch r st"
  shows "settled ch r (defersFn ps st)"
    and "reservations (trace (defersFn ps st)) = releases (trace (defersFn ps st))"
  using assms
  by (auto simp: settled_def balanced_def defersFn_fields deferredEvents_ledger split: sum.splits)

lemma pushToClosest_settled:
  assumes "pushToClosest ps ch w = (r, w', evs)"
  shows "reservations evs = releases evs"
    and "r = Inl e \<Longrightarrow> length (credits evs) \<le> 1"
    and "r = Inr rc \<Longrightarrow> pb_Receipt.Address rc = addr ch \<and>
        (\<exists>peer a s. credits evs = [(peer, a, None)] \<and> EvReadReceipt peer s (Inr rc) \<in> set evs)"
proof -
  have u: "unsettled (init w)"
    by (simp add: unsettled_def balanced_def init_def)
  obtain r0 st where l: "loop ps ch 0 (init w) = (r0, st)" by (cases "loop ps ch 0 (init w)")
  from assms l have r0: "r0 = r" and evs: "evs = trace (defersFn ps st)"
    by (simp_all add: pushToClosest_def Let_def)
  from loop_settles[OF u, of ch ps 0] l r0 have s: "settled ch r st" by simp
  from defersFn_settled(2)[OF s] evs show "reservations evs = releases evs" by simp
  from defersFn_settled(1)[OF s, of ps] evs show "r = Inl e \<Longrightarrow> length (credits evs) \<le> 1"
    by (simp add: settled_def)
  from defersFn_settled(1)[OF s, of ps] evs
  show "r = Inr rc \<Longrightarrow> pb_Receipt.Address rc = addr ch \<and>
        (\<exists>peer a s. credits evs = [(peer, a, None)] \<and> EvReadReceipt peer s (Inr rc) \<in> set evs)"
    by (simp add: settled_def)
qed

text \<open>
  Claim C1, as the code has it. On every path of \<open>pushToClosest\<close> (receipt, retryable
  failures, fatal error, cancelled context) the reservations made, that is the
  \<open>Reserve\<close> calls that succeeded, and the \<open>Release\<close> calls are the same sequence of
  peers and amounts: every reservation is released exactly once, by the cleanup closure
  registered at line 388, also when the peer has been credited. \<open>Credit\<close> is called at
  most once in a call.
\<close>

theorem C1_reservations_released:
  "reservations (snd (snd (pushToClosest ps ch w))) = releases (snd (snd (pushToClosest ps ch w)))
   \<and> length (credits (snd (snd (pushToClosest ps ch w)))) \<le> 1"
proof (cases "pushToClosest ps ch w")
  case (fields r w' evs)
  show ?thesis
  proof (cases r)
    case (Inl e)
    with pushToClosest_settled(1,2)[OF fields] fields show ?thesis by simp
  next
    case (Inr rc)
    with pushToClosest_settled(1,3)[OF fields] fields show ?thesis by auto
  qed
qed

text \<open>
  On the node whose writes fail, two peers are reserved against and both reservations are
  released.
\<close>

theorem C1_reservations_released_witness:
  "reservations (snd (snd (pushToClosest node_no_write chunk0 0))) = [(peerA, 10), (peerB, 10)]
   \<and> releases (snd (snd (pushToClosest node_no_write chunk0 0))) = [(peerA, 10), (peerB, 10)]
   \<and> length (credits (snd (snd (pushToClosest node_no_write chunk0 0)))) \<le> 1"
proof -
  have "reservations (snd (snd (pushToClosest node_no_write chunk0 0))) = [(peerA, 10), (peerB, 10)]"
    by code_simp
  with C1_reservations_released[of node_no_write chunk0 0] show ?thesis by simp
qed

text \<open>
  Against claim C1 as stated: on the node where everything succeeds, the call makes one
  reservation, and that reservation is both credited and released, so the number of
  \<open>Reserve\<close> calls (1) is not the number of \<open>Release\<close> and \<open>Credit\<close> calls (2).
\<close>

theorem C1_counterexample:
  "length (reservations (snd (snd (pushToClosest node chunk0 0))))
     \<noteq> length (releases (snd (snd (pushToClosest node chunk0 0))))
       + length (credits (snd (snd (pushToClosest node chunk0 0))))
   \<and> reservations (snd (snd (pushToClosest node chunk0 0))) = [(peerA, 10)]
   \<and> releases (snd (snd (pushToClosest node chunk0 0))) = [(peerA, 10)]
   \<and> credits (snd (snd (pushToClosest node chunk0 0))) = [(peerA, 10, None)]"
  by code_simp

section \<open>The skip list\<close>

lemma reservedPeers_simps [simp]:
  "reservedPeers [] = []"
  "reservedPeers (e # evs) = reservedPeerOf e @ reservedPeers evs"
  "reservedPeers (xs @ ys) = reservedPeers xs @ reservedPeers ys"
  by (simp_all add: reservedPeers_def)

lemma skips_follow_Cons:
  "skips_follow seen (ev # evs) =
     ((case ev of EvCheapestPeer skip q \<Rightarrow> skip = seen | _ \<Rightarrow> True) \<and>
      skips_follow (seen @ reservedPeerOf ev) evs)"
  by (cases ev) simp_all

lemma skips_follow_append:
  "skips_follow seen (xs @ ys) =
     (skips_follow seen xs \<and> skips_follow (seen @ reservedPeers xs) ys)"
  by (induction xs arbitrary: seen) (auto simp: skips_follow_Cons)

lemma skips_follow_query:
  "skips_follow seen evs \<Longrightarrow> EvCheapestPeer skip q \<in> set evs \<Longrightarrow> set seen \<subseteq> set skip"
proof (induction evs arbitrary: seen)
  case Nil
  then show ?case by simp
next
  case (Cons ev evs)
  then show ?case by (fastforce simp: skips_follow_Cons)
qed

lemma deferredEvents_peers:
  "reservedPeers (concat (map (deferredEvents le) ds)) = []"
  "skips_follow seen (concat (map (deferredEvents le) ds))"
proof -
  have one: "reservedPeers (deferredEvents le d) = []" for d
    by (cases d) (simp_all split: option.splits)
  show "reservedPeers (concat (map (deferredEvents le) ds)) = []"
    by (induction ds) (simp_all add: one)
  have two: "skips_follow seen (deferredEvents le d)" for d seen
    by (cases d) (simp_all split: option.splits)
  show "skips_follow seen (concat (map (deferredEvents le) ds))"
    by (induction ds arbitrary: seen) (simp_all add: skips_follow_append one two)
qed

lemma receive_tracked:
  "tracked h st \<Longrightarrow> tracked h (state_of (receive ps ch peer streamer receiptPrice st))"
  by (auto simp: receive_def tracked_def step_defs skips_follow_append
           split: prod.splits sum.splits option.splits)

lemma deliver_tracked:
  "tracked h st \<Longrightarrow> (h \<Longrightarrow> peer \<notin> set (skipPeers st)) \<Longrightarrow>
   tracked h (state_of (deliver ps ch peer streamer receiptPrice st))"
  apply (simp add: deliver_def Let_def call_def query_def split: prod.splits option.splits)
  apply (intro conjI impI allI receive_tracked)
  apply (auto simp: tracked_def step_defs skips_follow_append)
  done

lemma negotiate_tracked:
  "tracked h st \<Longrightarrow> (h \<Longrightarrow> peer \<notin> set (skipPeers st)) \<Longrightarrow>
   tracked h (state_of (negotiate ps ch peer streamer receiptPrice st))"
  apply (simp add: negotiate_def Let_def call_def query_def
              split: prod.splits option.splits sum.splits)
  apply (intro conjI impI allI deliver_tracked)
  apply (auto simp: tracked_def step_defs skips_follow_append)
  done

lemma honours_skipD:
  assumes "honours_skip ps" and "pricer_CheapestPeer ps a skip up w = (Inr p, w')"
  shows "p \<notin> set skip"
proof -
  from assms(2) have "fst (pricer_CheapestPeer ps a skip up w) = Inr p" by simp
  with assms(1) show ?thesis unfolding honours_skip_def by blast
qed

lemma attempt_tracked:
  "tracked (honours_skip ps) st \<Longrightarrow> tracked (honours_skip ps) (state_of (attempt ps ch st))"
  apply (simp add: attempt_def Let_def call_def query_def
              split: prod.splits option.splits sum.splits)
  apply (intro conjI impI allI negotiate_tracked)
  apply (auto simp: tracked_def step_defs skips_follow_append defersFn_fields deferredEvents_peers
              dest: honours_skipD)
  done

lemma loop_tracked:
  assumes "tracked (honours_skip ps) st"
  shows "tracked (honours_skip ps) (snd (loop ps ch i st))"
proof (rule loop_ends[where I = "tracked (honours_skip ps)" and Q = "\<lambda>r. tracked (honours_skip ps)"])
  show "tracked (honours_skip ps) st" by fact
  show "ends (tracked (honours_skip ps)) (\<lambda>r. tracked (honours_skip ps)) (attempt ps ch st)"
    if "tracked (honours_skip ps) st" for st :: "'a pstate"
    using attempt_tracked[OF that, of ch] by (cases "attempt ps ch st") simp_all
  show "tracked (honours_skip ps) (emit EvLoggerTracefReached st)"
    if "tracked (honours_skip ps) st" for st :: "'a pstate"
    using that by (simp add: tracked_def emit_def skips_follow_append)
qed

lemma pushToClosest_tracked:
  assumes "pushToClosest ps ch w = (r, w', evs)"
  shows "skips_follow [] evs" and "honours_skip ps \<Longrightarrow> distinct (reservedPeers evs)"
proof -
  have t: "tracked (honours_skip ps) (init w)"
    by (simp add: tracked_def init_def)
  obtain r0 st where l: "loop ps ch 0 (init w) = (r0, st)" by (cases "loop ps ch 0 (init w)")
  from assms l have evs: "evs = trace (defersFn ps st)"
    by (simp add: pushToClosest_def Let_def)
  from loop_tracked[OF t, of ch 0] l have "tracked (honours_skip ps) st" by simp
  then have "tracked (honours_skip ps) (defersFn ps st)"
    by (simp add: tracked_def defersFn_fields skips_follow_append deferredEvents_peers)
  with evs show "skips_follow [] evs" and "honours_skip ps \<Longrightarrow> distinct (reservedPeers evs)"
    by (simp_all add: tracked_def)
qed

lemma reserve_mem_peers:
  "EvReserve p b c \<in> set evs \<Longrightarrow> p \<in> set (reservedPeers evs)"
  by (induction evs) auto

text \<open>
  What the code does keep: the peer is saved in \<open>skipPeers\<close> at line 381, after the
  price negotiation and right before \<open>Reserve\<close> is called for it, and it stays there.
  Every later \<open>CheapestPeer\<close> call of the same \<open>pushToClosest\<close> call is made with a
  skip list that contains it, on whatever branch the attempt ended (reserve, write, tag,
  read or receipt failure); and when \<open>CheapestPeer\<close> never returns a peer of the skip
  list it is given, \<open>Reserve\<close> is called at most once for a peer.
\<close>

lemma skipped_after_reserve:
  assumes "pushToClosest ps ch w = (r, w', pre @ EvReserve peer a res # post)"
  shows "(\<forall>skip q. EvCheapestPeer skip q \<in> set post \<longrightarrow> peer \<in> set skip) \<and>
         (honours_skip ps \<longrightarrow>
            (\<forall>a' res'. EvReserve peer a' res' \<notin> set pre \<and> EvReserve peer a' res' \<notin> set post))"
proof
  from pushToClosest_tracked(1)[OF assms]
  have "skips_follow (reservedPeers pre @ [peer]) post"
    by (simp add: skips_follow_append skips_follow_Cons)
  then show "\<forall>skip q. EvCheapestPeer skip q \<in> set post \<longrightarrow> peer \<in> set skip"
    by (auto dest: skips_follow_query)
  show "honours_skip ps \<longrightarrow>
          (\<forall>a' res'. EvReserve peer a' res' \<notin> set pre \<and> EvReserve peer a' res' \<notin> set post)"
  proof
    assume "honours_skip ps"
    from pushToClosest_tracked(2)[OF assms this]
    have "peer \<notin> set (reservedPeers pre)" and "peer \<notin> set (reservedPeers post)" by auto
    then show "\<forall>a' res'. EvReserve peer a' res' \<notin> set pre \<and> EvReserve peer a' res' \<notin> set post"
      by (auto dest: reserve_mem_peers)
  qed
qed

text \<open>
  Claim C2 fails on the code where a stream cannot be opened. On \<open>node_dead_peer\<close> the
  cheapest peer \<open>peerA\<close> cannot be dialled, and \<open>peerB\<close>, which \<open>CheapestPeer\<close>
  returns once \<open>peerA\<close> is skipped, can. Lines 348-351 record the error and continue
  without saving \<open>peerA\<close> in \<open>skipPeers\<close>: all five \<open>CheapestPeer\<close> calls are made
  with the empty skip list, \<open>peerA\<close> is dialled five times, \<open>peerB\<close> is never tried,
  and the call ends with the error of the failed dial.
\<close>

theorem C2_dead_peer_redialled:
  "fst (pushToClosest node_dead_peer chunk0 0) = Inl (Wrapf (MsgNewStream peerA) (ErrOther ''dial''))
   \<and> streams_opened (snd (snd (pushToClosest node_dead_peer chunk0 0)))
       = [peerA, peerA, peerA, peerA, peerA]
   \<and> skips_queried (snd (snd (pushToClosest node_dead_peer chunk0 0))) = [[], [], [], [], []]
   \<and> fst (pricer_CheapestPeer node_dead_peer (addr chunk0) [peerA] False 0) = Inr peerB
   \<and> fst (streamer_NewStream node_dead_peer peerB [] 0) = Inr 1"
  by code_simp

section \<open>The receipt\<close>

text \<open>
  Claim C3. When \<open>PushChunkToClosest\<close> returns a receipt, the receipt has the address
  of the chunk, and exactly one \<open>Credit\<close> call was made in the call: it succeeded, and
  it was for the peer from whose stream this receipt was read.
\<close>

theorem C3_receipt_and_credit:
  assumes "PushChunkToClosest ps ch w = (Inr receipt, w', evs)"
  shows "Receipt.Address receipt = addr ch \<and>
         (\<exists>peer a s. credits evs = [(peer, a, None)] \<and>
            EvReadReceipt peer s
              (Inr \<lparr>pb_Receipt.Address = Receipt.Address receipt,
                    Signature = Receipt.Signature receipt\<rparr>) \<in> set evs)"
proof -
  from assms obtain rc where p: "pushToClosest ps ch w = (Inr rc, w', evs)"
    and r: "receipt = \<lparr>Receipt.Address = pb_Receipt.Address rc, Signature = pb_Receipt.Signature rc\<rparr>"
    by (auto simp: PushChunkToClosest_def split: prod.splits sum.splits)
  from pushToClosest_settled(3)[OF p refl] obtain peer a s
    where ad: "pb_Receipt.Address rc = addr ch"
      and c: "credits evs = [(peer, a, None)]"
      and m: "EvReadReceipt peer s (Inr rc) \<in> set evs"
    by blast
  from r have rc_eq: "\<lparr>pb_Receipt.Address = Receipt.Address receipt,
                     Signature = Receipt.Signature receipt\<rparr> = rc"
    by (cases rc) simp
  from r ad have "Receipt.Address receipt = addr ch" by simp
  moreover from c m rc_eq
  have "credits evs = [(peer, a, None)] \<and>
        EvReadReceipt peer s
          (Inr \<lparr>pb_Receipt.Address = Receipt.Address receipt,
                Signature = Receipt.Signature receipt\<rparr>) \<in> set evs"
    by simp
  ultimately show ?thesis by blast
qed

theorem C3_receipt_and_credit_witness:
  "PushChunkToClosest node chunk0 0 = (Inr \<lparr>Receipt.Address = [7], Signature = []\<rparr>, 0, events_ok)
   \<and> Receipt.Address \<lparr>Receipt.Address = [7], Signature = []\<rparr> = addr chunk0
   \<and> credits events_ok = [(peerA, 10, None)]"
proof -
  have run: "PushChunkToClosest node chunk0 0 =
               (Inr \<lparr>Receipt.Address = [7], Signature = []\<rparr>, 0, events_ok)"
    by code_simp
  from C3_receipt_and_credit[OF run] run show ?thesis
    by (simp add: events_ok_def)
qed

lemma accepted_simps [simp]:
  "accepted ch [] = []"
  "accepted ch (e # evs) = acceptedOf ch e @ accepted ch evs"
  "accepted ch (xs @ ys) = accepted ch xs @ accepted ch ys"
  by (simp_all add: accepted_def)










section \<open>A failed reservation\<close>

lemma refused_simps [simp]:
  "refused [] = []"
  "refused (e # evs) = refusedOf e @ refused evs"
  "refused (xs @ ys) = refused xs @ refused ys"
  by (simp_all add: refused_def)

lemma deferredEvents_cleanup:
  "refused (concat (map (deferredEvents le) ds)) = []"
  "list_all cleanup (concat (map (deferredEvents le) ds))"
proof -
  have one: "refused (deferredEvents le d) = []" "list_all cleanup (deferredEvents le d)" for d
    by (cases d; simp split: option.splits)+
  show "refused (concat (map (deferredEvents le) ds)) = []"
    by (induction ds) (simp_all add: one)
  show "list_all cleanup (concat (map (deferredEvents le) ds))"
    by (induction ds) (simp_all add: one)
qed









section \<open>Iterations that continue\<close>

lemma recorded_simps [simp]:
  "recorded [] = []"
  "recorded (e # evs) = recordedOf e @ recorded evs"
  "recorded (xs @ ys) = recorded xs @ recorded ys"
  by (simp_all add: recorded_def)

lemma deferredEvents_recorded:
  "recorded (concat (map (deferredEvents le) ds)) = []"
proof -
  have one: "recorded (deferredEvents le d) = []" for d
    by (cases d; simp split: option.splits)
  show ?thesis by (induction ds) (simp_all add: one)
qed

lemma continues_loop:
  "continues ps ch n st = Some st' \<Longrightarrow> i + n = maxPeers \<Longrightarrow>
   loop ps ch i st =
     (Inl (case lastErr st' of Some e \<Rightarrow> e | None \<Rightarrow> ErrNotFound), emit EvLoggerTracefReached st')"
proof (induction n arbitrary: i st)
  case 0
  then have "st = st'" and "i = maxPeers" by simp_all
  then show ?case by (simp add: loop.simps[of ps ch maxPeers st'] split: option.splits)
next
  case (Suc n)
  from Suc.prems(1) obtain st1 where a: "attempt ps ch st = Continue st1"
    and c: "continues ps ch n st1 = Some st'"
    by (auto split: outcome.splits)
  from Suc.prems(2) have "i < maxPeers" and "Suc i + n = maxPeers" by simp_all
  with Suc.IH[OF c, of "Suc i"] a show ?case
    by (simp add: loop.simps[of ps ch i st])
qed

section \<open>Iterations that end before the peer is saved\<close>

lemma queried_simps [simp]:
  "skips_queried [] = []"
  "skips_queried (e # evs) = queriedOf e @ skips_queried evs"
  "skips_queried (xs @ ys) = skips_queried xs @ skips_queried ys"
  "streams_opened [] = []"
  "streams_opened (e # evs) = openedOf e @ streams_opened evs"
  "streams_opened (xs @ ys) = streams_opened xs @ streams_opened ys"
  by (simp_all add: skips_queried_def streams_opened_def)

lemma deferredEvents_queried:
  "skips_queried (concat (map (deferredEvents le) ds)) = []"
proof -
  have one: "skips_queried (deferredEvents le d) = []" for d
    by (cases d; simp split: option.splits)
  show ?thesis by (induction ds) (simp_all add: one)
qed

lemma loop_continue:
  "attempt ps ch st = Continue st' \<Longrightarrow> i < maxPeers \<Longrightarrow> loop ps ch i st = loop ps ch (Suc i) st'"
  by (simp add: loop.simps[of ps ch i st])

lemma header_failure_attempt_imp:
  "header_failure ps ch st \<longrightarrow>
     (\<exists>st'. attempt ps ch st = Continue st' \<and> skipPeers st' = skipPeers st \<and>
           lastErr st' = lastErr st \<and> recorded (trace st') = recorded (trace st) \<and>
           reservedPeers (trace st') = reservedPeers (trace st) \<and>
           skips_queried (trace st') = skips_queried (trace st) @ [skipPeers st])"
  apply (simp add: header_failure_def attempt_def negotiate_def Let_def step_defs defersFn_fields
                 deferredEvents_recorded deferredEvents_queried deferredEvents_peers
           split: prod.split sum.split option.split)
  apply blast
  done

lemma header_failure_attempt:
  assumes "header_failure ps ch st"
  shows "\<exists>st'. attempt ps ch st = Continue st' \<and> skipPeers st' = skipPeers st \<and>
           lastErr st' = lastErr st \<and> recorded (trace st') = recorded (trace st) \<and>
           reservedPeers (trace st') = reservedPeers (trace st) \<and>
           skips_queried (trace st') = skips_queried (trace st) @ [skipPeers st]"
  using assms header_failure_attempt_imp by blast

lemma header_failures_continues:
  "header_failures ps ch n st \<Longrightarrow>
   \<exists>st'. continues ps ch n st = Some st' \<and> skipPeers st' = skipPeers st \<and>
     lastErr st' = lastErr st \<and> recorded (trace st') = recorded (trace st) \<and>
     reservedPeers (trace st') = reservedPeers (trace st) \<and>
     skips_queried (trace st') = skips_queried (trace st) @ replicate n (skipPeers st)"
proof (induction n arbitrary: st)
  case 0
  then show ?case by simp
next
  case (Suc n)
  from Suc.prems have hf: "header_failure ps ch st" by simp
  from header_failure_attempt[OF hf] obtain st1 where a: "attempt ps ch st = Continue st1"
    and f: "skipPeers st1 = skipPeers st" "lastErr st1 = lastErr st"
      "recorded (trace st1) = recorded (trace st)"
      "reservedPeers (trace st1) = reservedPeers (trace st)"
      "skips_queried (trace st1) = skips_queried (trace st) @ [skipPeers st]"
    by blast
  from Suc.prems a have "header_failures ps ch n st1" by simp
  from Suc.IH[OF this] obtain st' where c: "continues ps ch n st1 = Some st'"
    and g: "skipPeers st' = skipPeers st1" "lastErr st' = lastErr st1"
      "recorded (trace st') = recorded (trace st1)"
      "reservedPeers (trace st') = reservedPeers (trace st1)"
      "skips_queried (trace st') = skips_queried (trace st1) @ replicate n (skipPeers st1)"
    by blast
  from a c f g show ?case by (simp add: replicate_app_Cons_same)
qed

text \<open>
  Claim C9. An iteration that fails to build the pricing headers or to parse the returned
  ones ends in \<open>continue\<close>: it uses up one of the \<open>maxPeers\<close> iterations, assigns
  nothing to \<open>lastErr\<close> and leaves \<open>skipPeers\<close> as it was. A call whose five
  iterations all end so returns \<open>ErrNotFound\<close>; no error was recorded, no peer was
  reserved against, and each of its five \<open>CheapestPeer\<close> calls was made with the empty
  skip list, so that the same peer can be selected again.
\<close>

theorem C9_header_failures_unrecorded:
  "(header_failure ps ch st \<longrightarrow>
      (\<exists>st'. attempt ps ch st = Continue st' \<and> skipPeers st' = skipPeers st \<and>
         lastErr st' = lastErr st \<and> recorded (trace st') = recorded (trace st) \<and>
         (i < maxPeers \<longrightarrow> loop ps ch i st = loop ps ch (Suc i) st'))) \<and>
   (header_failures ps ch maxPeers (init w) \<longrightarrow>
      fst (pushToClosest ps ch w) = Inl ErrNotFound \<and>
      recorded (snd (snd (pushToClosest ps ch w))) = [] \<and>
      reservedPeers (snd (snd (pushToClosest ps ch w))) = [] \<and>
      skips_queried (snd (snd (pushToClosest ps ch w))) = replicate maxPeers [])"
proof (intro conjI impI)
  assume "header_failure ps ch st"
  from header_failure_attempt[OF this] obtain st' where a: "attempt ps ch st = Continue st'"
    and f: "skipPeers st' = skipPeers st" "lastErr st' = lastErr st"
      "recorded (trace st') = recorded (trace st)"
    by blast
  from loop_continue[OF a] have "i < maxPeers \<longrightarrow> loop ps ch i st = loop ps ch (Suc i) st'"
    by simp
  with a f show "\<exists>st'. attempt ps ch st = Continue st' \<and> skipPeers st' = skipPeers st \<and>
         lastErr st' = lastErr st \<and> recorded (trace st') = recorded (trace st) \<and>
         (i < maxPeers \<longrightarrow> loop ps ch i st = loop ps ch (Suc i) st')"
    by blast
next
  assume "header_failures ps ch maxPeers (init w)"
  from header_failures_continues[OF this] obtain st' where
    c: "continues ps ch maxPeers (init w) = Some st'"
    and g: "skipPeers st' = []" "lastErr st' = None" "recorded (trace st') = []"
      "reservedPeers (trace st') = []"
      "skips_queried (trace st') = replicate maxPeers []"
    by (auto simp: init_def)
  from continues_loop[OF c, of 0] g
  have l: "loop ps ch 0 (init w) = (Inl ErrNotFound, emit EvLoggerTracefReached st')"
    by simp
  have p: "pushToClosest ps ch w =
      (Inl ErrNotFound, world (defersFn ps (emit EvLoggerTracefReached st')),
       trace (defersFn ps (emit EvLoggerTracefReached st')))"
    using l by (simp add: pushToClosest_def Let_def)
  show "fst (pushToClosest ps ch w) = Inl ErrNotFound" using p by simp
  show "recorded (snd (snd (pushToClosest ps ch w))) = []"
    using p g by (simp add: defersFn_fields deferredEvents_recorded emit_def)
  show "reservedPeers (snd (snd (pushToClosest ps ch w))) = []"
    using p g by (simp add: defersFn_fields deferredEvents_peers emit_def)
  show "skips_queried (snd (snd (pushToClosest ps ch w))) = replicate maxPeers []"
    using p g by (simp add: defersFn_fields deferredEvents_queried emit_def)
qed

text \<open>
  On the node whose returned headers do not parse, \<open>peerA\<close> is selected and dialled in
  all five iterations.
\<close>

theorem C9_header_failures_unrecorded_witness:
  "header_failure node_bad_headers chunk0 (init 0)
   \<and> attempt node_bad_headers chunk0 (init 0) =
       Continue \<lparr>world = 0, trace = [EvCheapestPeer [] (Inr peerA), EvNewStream peerA (Inr 1)],
                 skipPeers = [], lastErr = None, deferFuncs = [DeferLog, DeferFullClose 1]\<rparr>
   \<and> header_failures node_bad_headers chunk0 maxPeers (init 0)
   \<and> fst (pushToClosest node_bad_headers chunk0 0) = Inl ErrNotFound
   \<and> skips_queried (snd (snd (pushToClosest node_bad_headers chunk0 0))) = [[], [], [], [], []]
   \<and> streams_opened (snd (snd (pushToClosest node_bad_headers chunk0 0)))
       = [peerA, peerA, peerA, peerA, peerA]
   \<and> header_failures node_no_headers chunk0 maxPeers (init 0)
   \<and> fst (pushToClosest node_no_headers chunk0 0) = Inl ErrNotFound
   \<and> skips_queried (snd (snd (pushToClosest node_no_headers chunk0 0))) = [[], [], [], [], []]"
proof -
  have h3: "header_failures node_no_headers chunk0 maxPeers (init 0)" by code_simp
  have h1: "header_failure node_bad_headers chunk0 (init 0)" by code_simp
  have h2: "header_failures node_bad_headers chunk0 maxPeers (init 0)" by code_simp
  have a: "attempt node_bad_headers chunk0 (init 0) =
       Continue \<lparr>world = 0, trace = [EvCheapestPeer [] (Inr peerA), EvNewStream peerA (Inr 1)],
                 skipPeers = [], lastErr = None, deferFuncs = [DeferLog, DeferFullClose 1]\<rparr>"
    by code_simp
  have o: "streams_opened (snd (snd (pushToClosest node_bad_headers chunk0 0)))
       = [peerA, peerA, peerA, peerA, peerA]"
    by code_simp
  from C9_header_failures_unrecorded[of node_bad_headers chunk0 "init 0" 0 0]
    C9_header_failures_unrecorded[of node_no_headers chunk0 "init 0" 0 0] h1 h2 h3 a o
  show ?thesis by (simp add: maxPeers_def numeral_eq_Suc)
qed

text \<open>
  Claim C8. In an iteration where the peer returns a price other than the proposed one,
  the pricer is notified, and the cheapest peer asked for again (with the same skip list)
  is another peer, the iteration ends in \<open>continue\<close>: the next iteration selects a peer
  anew. The selected peer has not been added to \<open>skipPeers\<close>, no \<open>Reserve\<close> call and
  no delivery was made for it, so there is no reservation to release; the closures left in
  \<open>deferFuncs\<close> are the log and the close of the opened stream.
\<close>

theorem C8_cheapest_peer_changed:
  assumes "ctx_Done ps (world st) = (None, w0)"
    and "st1 = defersFn ps (st\<lparr>world := w0\<rparr>)"
    and "pricer_CheapestPeer ps (addr ch) (skipPeers st) False (world st1) = (Inr peer, w1)"
    and "pricer_PeerPrice ps peer (addr ch) w1 = (receiptPrice, w2)"
    and "MakePricingHeaders ps receiptPrice (addr ch) = Inr hdrs"
    and "streamer_NewStream ps peer hdrs w2 = (Inr streamer, w3)"
    and "stream_Headers ps streamer w3 = (returnedHeaders, w4)"
    and "ParsePricingResponseHeaders ps returnedHeaders = Inr (target, returnedPrice, returnedIndex)"
    and "returnedPrice \<noteq> receiptPrice"
    and "pricer_NotifyPeerPrice ps peer returnedPrice returnedIndex w4 = (None, w5)"
    and "pricer_CheapestPeer ps (addr ch) (skipPeers st) False w5 = (Inr currentCheapestPeer, w6)"
    and "currentCheapestPeer \<noteq> peer"
  shows "\<exists>st'. attempt ps ch st = Continue st' \<and>
           world st' = w6 \<and>
           trace st' = trace st1 @
             [EvCheapestPeer (skipPeers st) (Inr peer), EvNewStream peer (Inr streamer),
              EvNotifyPeerPrice peer returnedPrice returnedIndex None,
              EvCheapestPeer (skipPeers st) (Inr currentCheapestPeer)] \<and>
           skipPeers st' = skipPeers st \<and> lastErr st' = lastErr st \<and>
           deferFuncs st' = [DeferLog, DeferFullClose streamer] \<and>
           (i < maxPeers \<longrightarrow> loop ps ch i st = loop ps ch (Suc i) st')"
proof -
  let ?st' = "st1\<lparr>world := w6,
      trace := trace st1 @
             [EvCheapestPeer (skipPeers st) (Inr peer), EvNewStream peer (Inr streamer),
              EvNotifyPeerPrice peer returnedPrice returnedIndex None,
              EvCheapestPeer (skipPeers st) (Inr currentCheapestPeer)],
      deferFuncs := [DeferLog, DeferFullClose streamer]\<rparr>"
  have s1: "skipPeers st1 = skipPeers st" "lastErr st1 = lastErr st" "deferFuncs st1 = []"
    using assms(2) by (simp_all add: defersFn_fields)
  have a: "attempt ps ch st = Continue ?st'"
    using assms(1) assms(3-12) s1 assms(2)[symmetric]
    by (simp add: attempt_def negotiate_def Let_def step_defs)
  from loop_continue[OF a] have "i < maxPeers \<longrightarrow> loop ps ch i st = loop ps ch (Suc i) ?st'"
    by simp
  with a s1 show ?thesis by simp
qed

text \<open>
  On the node whose peers return the price 12: \<open>peerA\<close> is selected first, and after
  the notification \<open>peerB\<close> is the cheapest.
\<close>

theorem C8_cheapest_peer_changed_witness:
  "attempt node_price_changed chunk0 (init (0::nat)) =
     Continue \<lparr>world = 1,
               trace = [EvCheapestPeer [] (Inr peerA), EvNewStream peerA (Inr 1),
                        EvNotifyPeerPrice peerA 12 0 None, EvCheapestPeer [] (Inr peerB)],
               skipPeers = [], lastErr = None, deferFuncs = [DeferLog, DeferFullClose 1]\<rparr>
   \<and> loop node_price_changed chunk0 0 (init (0::nat)) =
       loop node_price_changed chunk0 1
         \<lparr>world = 1,
          trace = [EvCheapestPeer [] (Inr peerA), EvNewStream peerA (Inr 1),
                   EvNotifyPeerPrice peerA 12 0 None, EvCheapestPeer [] (Inr peerB)],
          skipPeers = [], lastErr = None, deferFuncs = [DeferLog, DeferFullClose 1]\<rparr>"
proof -
  have h1: "ctx_Done node_price_changed (world (init (0::nat))) = (None, 0)"
    by (simp add: node_price_changed_def node_def init_def)
  have h2: "init 0 = defersFn node_price_changed ((init (0::nat))\<lparr>world := 0\<rparr>)"
    by (simp add: defersFn_def init_def)
  have h3: "pricer_CheapestPeer node_price_changed (addr chunk0) (skipPeers (init (0::nat))) False
              (world (init (0::nat))) = (Inr peerA, 0)"
    by (simp add: node_price_changed_def node_def init_def)
  have h4: "pricer_PeerPrice node_price_changed peerA (addr chunk0) 0 = (10, 0)"
    by (simp add: node_price_changed_def node_def)
  have h5: "MakePricingHeaders node_price_changed 10 (addr chunk0) = Inr []"
    by (simp add: node_price_changed_def node_def)
  have h6: "streamer_NewStream node_price_changed peerA [] 0 = (Inr 1, 0)"
    by (simp add: node_price_changed_def node_def)
  have h7: "stream_Headers node_price_changed 1 0 = ([], 0)"
    by (simp add: node_price_changed_def node_def)
  have h8: "ParsePricingResponseHeaders node_price_changed [] = Inr ([], 12, 0)"
    by (simp add: node_price_changed_def node_def)
  have h9: "(12 :: price) \<noteq> 10" by simp
  have h10: "pricer_NotifyPeerPrice node_price_changed peerA 12 0 0 = (None, 1)"
    by (simp add: node_price_changed_def node_def)
  have h11: "pricer_CheapestPeer node_price_changed (addr chunk0) (skipPeers (init (0::nat))) False 1
               = (Inr peerB, 1)"
    by (simp add: node_price_changed_def node_def init_def peerB_def)
  have h12: "peerB \<noteq> peerA" by (simp add: peerA_def peerB_def)
  from C8_cheapest_peer_changed[OF h1 h2 h3 h4 h5 h6 h7 h8 h9 h10 h11 h12, of 0]
  obtain st' where c: "attempt node_price_changed chunk0 (init (0::nat)) = Continue st' \<and>
           world st' = 1 \<and>
           trace st' = trace (init (0::nat)) @
             [EvCheapestPeer (skipPeers (init (0::nat))) (Inr peerA), EvNewStream peerA (Inr 1),
              EvNotifyPeerPrice peerA 12 0 None,
              EvCheapestPeer (skipPeers (init (0::nat))) (Inr peerB)] \<and>
           skipPeers st' = skipPeers (init (0::nat)) \<and> lastErr st' = lastErr (init (0::nat)) \<and>
           deferFuncs st' = [DeferLog, DeferFullClose 1] \<and>
           (0 < maxPeers \<longrightarrow>
              loop node_price_changed chunk0 0 (init (0::nat)) =
              loop node_price_changed chunk0 (Suc 0) st')" ..
  then have "st' = \<lparr>world = 1,
               trace = [EvCheapestPeer [] (Inr peerA), EvNewStream peerA (Inr 1),
                        EvNotifyPeerPrice peerA 12 0 None, EvCheapestPeer [] (Inr peerB)],
               skipPeers = [], lastErr = None, deferFuncs = [DeferLog, DeferFullClose 1]\<rparr>"
    by (cases st') (simp add: init_def)
  with c show ?thesis by (simp add: maxPeers_def)
qed

section \<open>The result after the last iteration\<close>

lemma failures_simps [simp]:
  "failures ch [] = []"
  "failures ch (e # evs) = failureOf ch e @ failures ch evs"
  "failures ch (xs @ ys) = failures ch xs @ failures ch ys"
  by (simp_all add: failures_def)

lemma deferredEvents_failures:
  "failures ch (concat (map (deferredEvents le) ds)) = []"
proof -
  have one: "failures ch (deferredEvents le d) = []" for d
    by (cases d; simp split: option.splits)
  show ?thesis by (induction ds) (simp_all add: one)
qed

lemma receive_attentive:
  "owing ch k st \<Longrightarrow>
   ends (attentive ch k) (\<lambda>r st. True) (receive ps ch peer streamer receiptPrice st)"
  by (auto simp: receive_def owing_def attentive_def last_failure_def step_defs
           split: prod.splits sum.splits option.splits)

lemma deliver_attentive:
  "attentive ch k st \<Longrightarrow>
   ends (attentive ch k) (\<lambda>r st. True) (deliver ps ch peer streamer receiptPrice st)"
  apply (simp add: deliver_def Let_def call_def query_def split: prod.splits option.splits)
  apply (intro conjI impI allI receive_attentive)
  apply (auto simp: owing_def attentive_def last_failure_def step_defs)
  done

lemma negotiate_attentive:
  "attentive ch k st \<Longrightarrow>
   ends (attentive ch k) (\<lambda>r st. True) (negotiate ps ch peer streamer receiptPrice st)"
  apply (simp add: negotiate_def Let_def call_def query_def
              split: prod.splits option.splits sum.splits)
  apply (intro conjI impI allI deliver_attentive)
  apply (auto simp: attentive_def last_failure_def step_defs)
  done

lemma attempt_attentive:
  "attentive ch k st \<Longrightarrow> ends (attentive ch (Suc k)) (\<lambda>r st. True) (attempt ps ch st)"
  apply (simp add: attempt_def Let_def call_def query_def
              split: prod.splits option.splits sum.splits)
  apply (intro conjI impI allI negotiate_attentive)
  apply (auto simp: attentive_def last_failure_def step_defs defersFn_fields
                    deferredEvents_recorded deferredEvents_failures deferredEvents_ledger
                    deferredEvents_queried)
  done

lemma continues_attentive:
  "attentive ch k st \<Longrightarrow> continues ps ch n st = Some st' \<Longrightarrow> attentive ch (k + n) st'"
proof (induction n arbitrary: k st)
  case 0
  then show ?case by simp
next
  case (Suc n)
  from Suc.prems(2) obtain st1 where a: "attempt ps ch st = Continue st1"
    and c: "continues ps ch n st1 = Some st'"
    by (auto split: outcome.splits)
  from attempt_attentive[OF Suc.prems(1), of ps] a have "attentive ch (Suc k) st1" by simp
  from Suc.IH[OF this c] show ?case by simp
qed

text \<open>
  Claim C4. When all \<open>maxPeers\<close> = 5 iterations of a \<open>pushToClosest\<close> call end in
  \<open>continue\<close>, the events of the call are those of the five iterations (with at least
  five \<open>CheapestPeer\<close> calls among them), then the trace line of line 436 and the
  cleanup. The call returns the error of the last retryable failure among them (a stream
  not opened, a delivery not written, a receipt not read, a receipt with another
  address), and \<open>ErrNotFound\<close> when there was none. Each of these failures was assigned
  to \<open>lastErr\<close>, in order, and nothing else was; and no reservation went without one.
\<close>

theorem C4_exhausted_budget:
  assumes "continues ps ch maxPeers (init w) \<noteq> None"
  shows "\<exists>st cl. continues ps ch maxPeers (init w) = Some st \<and> maxPeers = 5 \<and>
           snd (snd (pushToClosest ps ch w)) = trace st @ EvLoggerTracefReached # cl \<and>
           list_all cleanup cl \<and>
           5 \<le> length (skips_queried (trace st)) \<and>
           length (reservations (trace st)) \<le> length (failures ch (trace st)) \<and>
           recorded (snd (snd (pushToClosest ps ch w))) = failures ch (snd (snd (pushToClosest ps ch w))) \<and>
           failures ch (snd (snd (pushToClosest ps ch w))) = failures ch (trace st) \<and>
           fst (pushToClosest ps ch w) =
             Inl (case last_failure ch (snd (snd (pushToClosest ps ch w))) of
                    Some e \<Rightarrow> e
                  | None \<Rightarrow> ErrNotFound)"
proof -
  from assms obtain st where c: "continues ps ch maxPeers (init w) = Some st" by auto
  have "attentive ch 0 (init w)"
    by (simp add: attentive_def last_failure_def init_def)
  from continues_attentive[OF this c]
  have at: "recorded (trace st) = failures ch (trace st)"
    "lastErr st = last_failure ch (trace st)"
    "length (reservations (trace st)) \<le> length (failures ch (trace st))"
    "5 \<le> length (skips_queried (trace st))"
    by (simp_all add: attentive_def maxPeers_def)
  let ?cl = "concat (map (deferredEvents (lastErr st)) (deferFuncs st))"
  from continues_loop[OF c, of 0]
  have l: "loop ps ch 0 (init w) =
       (Inl (case lastErr st of Some e \<Rightarrow> e | None \<Rightarrow> ErrNotFound), emit EvLoggerTracefReached st)"
    by simp
  then have r: "fst (pushToClosest ps ch w) =
       Inl (case lastErr st of Some e \<Rightarrow> e | None \<Rightarrow> ErrNotFound)"
    and evs: "snd (snd (pushToClosest ps ch w)) = trace st @ EvLoggerTracefReached # ?cl"
    by (simp_all add: pushToClosest_def Let_def defersFn_fields emit_def)
  have cl: "list_all cleanup ?cl" by (rule deferredEvents_cleanup)
  have f: "failures ch (snd (snd (pushToClosest ps ch w))) = failures ch (trace st)"
    and rec: "recorded (snd (snd (pushToClosest ps ch w))) = recorded (trace st)"
    using evs by (simp_all add: deferredEvents_failures deferredEvents_recorded)
  from f have lf: "last_failure ch (snd (snd (pushToClosest ps ch w))) = last_failure ch (trace st)"
    by (simp add: last_failure_def)
  from c evs cl at r f rec lf show ?thesis
    by (simp add: maxPeers_def)
qed

text \<open>
  On the node whose receipts come back with another address, five peers are tried, one
  after the other, each fails the receipt check, and the error returned is that of the
  fifth.
\<close>

theorem C4_exhausted_budget_witness:
  "continues node_bad_receipts chunk0 maxPeers (init 0) \<noteq> None
   \<and> maxPeers = 5
   \<and> failures chunk0 (snd (snd (pushToClosest node_bad_receipts chunk0 0)))
       = [Fmt (MsgInvalidReceipt [7] [11]), Fmt (MsgInvalidReceipt [7] [12]),
          Fmt (MsgInvalidReceipt [7] [13]), Fmt (MsgInvalidReceipt [7] [14]),
          Fmt (MsgInvalidReceipt [7] [15])]
   \<and> recorded (snd (snd (pushToClosest node_bad_receipts chunk0 0)))
       = [Fmt (MsgInvalidReceipt [7] [11]), Fmt (MsgInvalidReceipt [7] [12]),
          Fmt (MsgInvalidReceipt [7] [13]), Fmt (MsgInvalidReceipt [7] [14]),
          Fmt (MsgInvalidReceipt [7] [15])]
   \<and> skips_queried (snd (snd (pushToClosest node_bad_receipts chunk0 0)))
       = [[], [[11]], [[11], [12]], [[11], [12], [13]], [[11], [12], [13], [14]]]
   \<and> fst (pushToClosest node_bad_receipts chunk0 0) = Inl (Fmt (MsgInvalidReceipt [7] [15]))"
proof -
  have five: "maxPeers = Suc (Suc (Suc (Suc (Suc 0))))"
    by (simp add: maxPeers_def)
  have c: "continues node_bad_receipts chunk0 maxPeers (init 0) \<noteq> None"
    by (simp add: five attempt_def negotiate_def deliver_def receive_def node_bad_receipts_def
          node_def step_defs defersFn_def init_def chunk0_def Let_def)
  have f: "failures chunk0 (snd (snd (pushToClosest node_bad_receipts chunk0 0)))
       = [Fmt (MsgInvalidReceipt [7] [11]), Fmt (MsgInvalidReceipt [7] [12]),
          Fmt (MsgInvalidReceipt [7] [13]), Fmt (MsgInvalidReceipt [7] [14]),
          Fmt (MsgInvalidReceipt [7] [15])]"
    by (simp add: pushToClosest_def loop.simps maxPeers_def attempt_def negotiate_def deliver_def
          receive_def node_bad_receipts_def node_def step_defs defersFn_def init_def chunk0_def
          Let_def)
  have q: "skips_queried (snd (snd (pushToClosest node_bad_receipts chunk0 0)))
       = [[], [[11]], [[11], [12]], [[11], [12], [13]], [[11], [12], [13], [14]]]"
    by (simp add: pushToClosest_def loop.simps maxPeers_def attempt_def negotiate_def deliver_def
          receive_def node_bad_receipts_def node_def step_defs defersFn_def init_def chunk0_def
          Let_def)
  from C4_exhausted_budget[OF c] obtain st cl where
    "recorded (snd (snd (pushToClosest node_bad_receipts chunk0 0)))
       = failures chunk0 (snd (snd (pushToClosest node_bad_receipts chunk0 0)))"
    and "fst (pushToClosest node_bad_receipts chunk0 0) =
             Inl (case last_failure chunk0 (snd (snd (pushToClosest node_bad_receipts chunk0 0))) of
                    Some e \<Rightarrow> e
                  | None \<Rightarrow> ErrNotFound)"
    by blast
  with c f q show ?thesis
    by (simp add: maxPeers_def last_failure_def)
qed

section \<open>The handler\<close>

lemma handler_closing:
  "handler ps p w =
     (case handler_body ps p \<lparr>world = w, trace = []\<rparr> of
        (err, s) \<Rightarrow> (err, world s, trace s @ closing err))"
  by (simp add: handler_def closing_def split: prod.splits option.splits)

lemma EachNeighbor_replicate_visit:
  "count \<le> nPeersToPushsync \<Longrightarrow>
   snd (snd (EachNeighbor (replicate_visit p) nbs (count, s))) =
     s\<lparr>trace := trace s @
          map EvGoReplicate
            (take (nPeersToPushsync - count)
               (filter (\<lambda>peer. peer \<noteq> p2p_Peer.Address p) (map fst nbs)))\<rparr>"
proof (induction nbs arbitrary: count s)
  case Nil
  then show ?case by simp
next
  case (Cons nb nbs)
  obtain peer po where nb: "nb = (peer, po)" by (cases nb)
  show ?case
  proof (cases "peer = p2p_Peer.Address p")
    case True
    with Cons nb show ?thesis by (simp add: replicate_visit_def)
  next
    case False
    show ?thesis
    proof (cases "count = nPeersToPushsync")
      case True
      with False nb show ?thesis by (simp add: replicate_visit_def)
    next
      case ne: False
      with Cons.prems have lt: "Suc count \<le> nPeersToPushsync" by simp
      then have "nPeersToPushsync - count = Suc (nPeersToPushsync - Suc count)" by simp
      with Cons.IH[OF lt, of "emit (EvGoReplicate peer) s"] False ne nb show ?thesis
        by (simp add: replicate_visit_def emit_def)
    qed
  qed
qed

text \<open>
  Claim C6, as the code has it. When the upstream peer is closer to the chunk than this
  node (\<open>DistanceCmp\<close> gives 1): within depth, the handler calls the store, whose error
  \<open>perr\<close> is only logged, debits the upstream peer for the price, and returns the
  result \<open>derr\<close> of the debit, which is success exactly when the debit succeeded;
  outside depth it returns \<open>ErrOutOfDepthReplication\<close> and neither stores nor debits.
\<close>

theorem C6_replication_target:
  assumes "prepare ps p \<lparr>world = w, trace = []\<rparr> = Inr (chunk, price, s)"
    and "fst (DistanceCmp ps (addr chunk) (p2p_Peer.Address p) (address ps)) = 1"
    and "topology_IsWithinDepth ps (addr chunk) (world s) = (within, w1)"
    and "storer_Put ps chunk w1 = (perr, w2)"
    and "accounting_Debit ps (p2p_Peer.Address p) price w2 = (derr, w3)"
  shows "handler ps p w =
           (if within
            then (derr, w3,
                  trace s @ [EvPut chunk perr, EvDebit (p2p_Peer.Address p) price derr] @ closing derr)
            else (Some ErrOutOfDepthReplication, w1, trace s @ [EvTotalErrorsInc, EvStreamReset]))"
  using assms
  by (simp add: handler_closing handler_body_def decide_def call_def query_def closing_def)

text \<open>Within depth the chunk is stored and the upstream peer debited; outside, neither.\<close>

theorem C6_replication_target_witness:
  "handler node_closer upstream 0 =
     (None, 0, received @ [EvPut chunk0 None, EvDebit [3] 10 None, EvStreamFullClose])
   \<and> handler node_closer_outside upstream 0 =
     (Some ErrOutOfDepthReplication, 0, received @ [EvTotalErrorsInc, EvStreamReset])"
proof -
  let ?s = "\<lparr>world = 0 :: nat, trace = received\<rparr>"
  have p1: "prepare node_closer upstream \<lparr>world = 0, trace = []\<rparr> = Inr (chunk0, 10, ?s)"
    by code_simp
  have d1: "fst (DistanceCmp node_closer (addr chunk0) (p2p_Peer.Address upstream)
                  (address node_closer)) = 1"
    by (simp add: node_closer_def)
  have i1: "topology_IsWithinDepth node_closer (addr chunk0) (world ?s) = (True, 0)"
    by (simp add: node_closer_def node_def)
  have s1: "storer_Put node_closer chunk0 0 = (None, 0)"
    by (simp add: node_closer_def node_def)
  have b1: "accounting_Debit node_closer (p2p_Peer.Address upstream) 10 0 = (None, 0)"
    by (simp add: node_closer_def node_def)
  have p2: "prepare node_closer_outside upstream \<lparr>world = 0, trace = []\<rparr> = Inr (chunk0, 10, ?s)"
    by code_simp
  have d2: "fst (DistanceCmp node_closer_outside (addr chunk0) (p2p_Peer.Address upstream)
                  (address node_closer_outside)) = 1"
    by (simp add: node_closer_outside_def node_closer_def)
  have i2: "topology_IsWithinDepth node_closer_outside (addr chunk0) (world ?s) = (False, 0)"
    by (simp add: node_closer_outside_def)
  have s2: "storer_Put node_closer_outside chunk0 0 = (None, 0)"
    by (simp add: node_closer_outside_def node_closer_def node_def)
  have b2: "accounting_Debit node_closer_outside (p2p_Peer.Address upstream) 10 0 = (None, 0)"
    by (simp add: node_closer_outside_def node_closer_def node_def)
  from C6_replication_target[OF p1 d1 i1 s1 b1] C6_replication_target[OF p2 d2 i2 s2 b2]
  show ?thesis by (simp add: closing_def upstream_def)
qed

text \<open>
  Against claim C6 as stated, with the upstream peer closer and the chunk within depth:
  when the debit fails the handler returns that error, not success; and when the store
  fails the handler still debits the upstream peer and returns success, with nothing
  stored.
\<close>

theorem C6_counterexample:
  "fst (DistanceCmp node_closer_no_debit (addr chunk0) (p2p_Peer.Address upstream)
         (address node_closer_no_debit)) = 1
   \<and> fst (topology_IsWithinDepth node_closer_no_debit (addr chunk0) 0) = True
   \<and> handler node_closer_no_debit upstream 0 =
       (Some (ErrOther ''debit''), 0,
        received @ [EvPut chunk0 None, EvDebit [3] 10 (Some (ErrOther ''debit'')),
                    EvTotalErrorsInc, EvStreamReset])
   \<and> fst (DistanceCmp node_closer_no_store (addr chunk0) (p2p_Peer.Address upstream)
         (address node_closer_no_store)) = 1
   \<and> fst (topology_IsWithinDepth node_closer_no_store (addr chunk0) 0) = True
   \<and> handler node_closer_no_store upstream 0 =
       (None, 0,
        received @ [EvPut chunk0 (Some (ErrOther ''disk'')), EvDebit [3] 10 None,
                    EvStreamFullClose])"
  by code_simp

text \<open>
  Claim C7. When the inner \<open>pushToClosest\<close> call fails with an error that is
  \<open>ErrWantSelf\<close>, the handler stores the chunk, and a store error ends the handler
  with that error. Otherwise it launches the replication to the first
  \<open>nPeersToPushsync\<close> = 3 neighbours other than the upstream peer, signs the address of
  the chunk, writes the receipt with that address and signature to the upstream stream,
  debits the upstream peer for the price and returns the result of the debit. An error
  of the signer or of the write ends the handler with that error, after the launches.
\<close>

theorem C7_terminal_node:
  assumes "prepare ps p \<lparr>world = w, trace = []\<rparr> = Inr (chunk, price, s0)"
    and "fst (DistanceCmp ps (addr chunk) (p2p_Peer.Address p) (address ps)) \<noteq> 1"
    and "topology_IsWithinDepth ps (addr chunk) (world s0) = (within, w1)"
    and "s1 = (if within then snd (call (storer_Put ps chunk) (EvPut chunk) (s0\<lparr>world := w1\<rparr>))
               else s0\<lparr>world := w1\<rparr>)"
    and "pushToClosest ps chunk (world s1) = (Inl err, w2, evs)"
    and "errors_Is err ErrWantSelf"
    and "storer_Put ps chunk w2 = (perr, w3)"
    and "topology_Neighbors ps w3 = (neighbors, w4)"
    and "targets = take nPeersToPushsync
                     (filter (\<lambda>peer. peer \<noteq> p2p_Peer.Address p) (map fst neighbors))"
    and "signer_Sign ps (addr chunk) w4 = (sres, w5)"
    and "launched = trace s1 @ evs @ EvPut chunk None # map EvGoReplicate targets"
  shows "length targets \<le> nPeersToPushsync \<and> p2p_Peer.Address p \<notin> set targets \<and>
         handler ps p w =
           (case perr of
              Some e \<Rightarrow>
                (Some (Wrapf MsgChunkStore e), w3,
                 trace s1 @ evs @ [EvPut chunk (Some e), EvTotalErrorsInc, EvStreamReset])
            | None \<Rightarrow>
                (case sres of
                   Inl e \<Rightarrow>
                     (Some (Wrapf MsgReceiptSignature e), w5,
                      launched @ [EvSign (addr chunk) (Inl e), EvTotalErrorsInc, EvStreamReset])
                 | Inr signature \<Rightarrow>
                     (case up_WriteReceipt ps
                             \<lparr>pb_Receipt.Address = addr chunk, Signature = signature\<rparr> w5 of
                        (Some e, w6) \<Rightarrow>
                          (Some (Wrapf (MsgSendReceipt (p2p_Peer.Address p)) e), w6,
                           launched @
                           [EvSign (addr chunk) (Inr signature),
                            EvWriteReceipt
                              \<lparr>pb_Receipt.Address = addr chunk, Signature = signature\<rparr> (Some e),
                            EvTotalErrorsInc, EvStreamReset])
                      | (None, w6) \<Rightarrow>
                          (case accounting_Debit ps (p2p_Peer.Address p) price w6 of
                             (derr, w7) \<Rightarrow>
                               (derr, w7,
                                launched @
                                [EvSign (addr chunk) (Inr signature),
                                 EvWriteReceipt
                                   \<lparr>pb_Receipt.Address = addr chunk, Signature = signature\<rparr> None,
                                 EvDebit (p2p_Peer.Address p) price derr] @ closing derr)))))"
proof (intro conjI)
  show "length targets \<le> nPeersToPushsync" using assms(9) by simp
  show "p2p_Peer.Address p \<notin> set targets" using assms(9) by (auto dest: in_set_takeD)
  let ?s2 = "s1\<lparr>world := w2, trace := trace s1 @ evs\<rparr>"
  have fw: "forward ps p chunk price s0 = terminal ps p chunk price ?s2"
    using assms(3-6) by (simp add: forward_def query_def Let_def)
  have en: "EachNeighbor (replicate_visit p) neighbors (0, s) =
      (fst (EachNeighbor (replicate_visit p) neighbors (0, s)),
       fst (snd (EachNeighbor (replicate_visit p) neighbors (0, s))),
       s\<lparr>trace := trace s @ map EvGoReplicate targets\<rparr>)" for s :: "'a sys"
    using EachNeighbor_replicate_visit[of 0 p neighbors s] assms(9)
    by (simp add: prod_eq_iff)
  have hb: "handler_body ps p \<lparr>world = w, trace = []\<rparr> = terminal ps p chunk price ?s2"
    using assms(1,2) fw by (simp add: handler_body_def decide_def)
  show "handler ps p w =
           (case perr of
              Some e \<Rightarrow>
                (Some (Wrapf MsgChunkStore e), w3,
                 trace s1 @ evs @ [EvPut chunk (Some e), EvTotalErrorsInc, EvStreamReset])
            | None \<Rightarrow>
                (case sres of
                   Inl e \<Rightarrow>
                     (Some (Wrapf MsgReceiptSignature e), w5,
                      launched @ [EvSign (addr chunk) (Inl e), EvTotalErrorsInc, EvStreamReset])
                 | Inr signature \<Rightarrow>
                     (case up_WriteReceipt ps
                             \<lparr>pb_Receipt.Address = addr chunk, Signature = signature\<rparr> w5 of
                        (Some e, w6) \<Rightarrow>
                          (Some (Wrapf (MsgSendReceipt (p2p_Peer.Address p)) e), w6,
                           launched @
                           [EvSign (addr chunk) (Inr signature),
                            EvWriteReceipt
                              \<lparr>pb_Receipt.Address = addr chunk, Signature = signature\<rparr> (Some e),
                            EvTotalErrorsInc, EvStreamReset])
                      | (None, w6) \<Rightarrow>
                          (case accounting_Debit ps (p2p_Peer.Address p) price w6 of
                             (derr, w7) \<Rightarrow>
                               (derr, w7,
                                launched @
                                [EvSign (addr chunk) (Inr signature),
                                 EvWriteReceipt
                                   \<lparr>pb_Receipt.Address = addr chunk, Signature = signature\<rparr> None,
                                 EvDebit (p2p_Peer.Address p) price derr] @ closing derr)))))"
  proof (cases perr)
    case (Some e)
    with assms(7) hb show ?thesis
      by (simp add: handler_closing terminal_def call_def closing_def)
  next
    case None
    with assms(7,8,10,11) hb show ?thesis
      apply (simp add: handler_closing terminal_def call_def query_def Let_def)
      apply (subst en)
      apply (simp add: call_def closing_def split: sum.splits prod.splits option.splits)
      done
  qed
qed

text \<open>
  On \<open>node_want_self\<close> the neighbours are 4, 3, 5, 6 and 8 and the upstream peer is 3:
  the replication goes to 4, 5 and 6.
\<close>

theorem C7_terminal_node_witness:
  "handler node_want_self upstream 0 =
     (None, 0,
      received @ [EvPut chunk0 None, EvCheapestPeer [] (Inl ErrWantSelf), EvPut chunk0 None,
        EvGoReplicate [4], EvGoReplicate [5], EvGoReplicate [6],
        EvSign [7] (Inr [5]), EvWriteReceipt \<lparr>pb_Receipt.Address = [7], Signature = [5]\<rparr> None,
        EvDebit [3] 10 None, EvStreamFullClose])
   \<and> length [[4], [5], [6 :: 8 word]] \<le> nPeersToPushsync
   \<and> p2p_Peer.Address upstream \<notin> set [[4], [5], [6]]"
proof -
  let ?s0 = "\<lparr>world = 0 :: nat, trace = received\<rparr>"
  let ?s1 = "\<lparr>world = 0 :: nat, trace = received @ [EvPut chunk0 None]\<rparr>"
  have h1: "prepare node_want_self upstream \<lparr>world = 0, trace = []\<rparr> = Inr (chunk0, 10, ?s0)"
    by code_simp
  have h2: "fst (DistanceCmp node_want_self (addr chunk0) (p2p_Peer.Address upstream)
                  (address node_want_self)) \<noteq> 1"
    by (simp add: node_want_self_def node_def)
  have h3: "topology_IsWithinDepth node_want_self (addr chunk0) (world ?s0) = (True, 0)"
    by (simp add: node_want_self_def node_def)
  have h4: "?s1 = (if True then snd (call (storer_Put node_want_self chunk0) (EvPut chunk0)
                                       (?s0\<lparr>world := 0\<rparr>))
                   else ?s0\<lparr>world := 0\<rparr>)"
    by (simp add: call_def node_want_self_def node_def)
  have h5: "pushToClosest node_want_self chunk0 (world ?s1) =
              (Inl (Wrapf MsgClosestPeer ErrWantSelf), 0, [EvCheapestPeer [] (Inl ErrWantSelf)])"
    by code_simp
  have h6: "errors_Is (Wrapf MsgClosestPeer ErrWantSelf) ErrWantSelf" by simp
  have h7: "storer_Put node_want_self chunk0 0 = (None, 0)"
    by (simp add: node_want_self_def node_def)
  have h8: "topology_Neighbors node_want_self 0 =
              ([([4], 1), ([3], 1), ([5], 1), ([6], 2), ([8], 2)], 0)"
    by (simp add: node_want_self_def node_def)
  have h9: "[[4], [5], [6]] = take nPeersToPushsync
              (filter (\<lambda>peer. peer \<noteq> p2p_Peer.Address upstream)
                 (map fst [([4], 1 :: 8 word), ([3], 1), ([5], 1), ([6], 2), ([8], 2)]))"
    by (simp add: nPeersToPushsync_def upstream_def)
  have h10: "signer_Sign node_want_self (addr chunk0) 0 = (Inr [5], 0)"
    by (simp add: node_want_self_def node_def)
  have w: "up_WriteReceipt node_want_self \<lparr>pb_Receipt.Address = addr chunk0, Signature = [5]\<rparr> 0
             = (None, 0)"
    by (simp add: node_want_self_def node_def)
  have d: "accounting_Debit node_want_self (p2p_Peer.Address upstream) 10 0 = (None, 0)"
    by (simp add: node_want_self_def node_def)
  from C7_terminal_node[OF h1 h2 h3 h4 h5 h6 h7 h8 h9 h10 refl] w d
  show ?thesis by (simp add: closing_def upstream_def chunk0_def)
qed

end
